theory Spec2Isabelle
  imports Complex_Main "HOL-Library.List_Lexorder" "HOL-Library.Char_ord"
begin

section \<open>Python values and exceptions\<close>

text \<open>
  The comparator of \<^verbatim>\<open>document_comparison_service.py\<close> receives two dictionaries of type
  \<^verbatim>\<open>Dict[str, Any]\<close>. A dictionary is a map from keys to values, and a value is one of the
  kinds the analysis step produces (integers, strings, lists, nested dictionaries) or
  \<^verbatim>\<open>None\<close>; booleans and floats as field values are left out. Python integers are
  unbounded, hence \<open>int\<close>. A string is a list of characters, each a code point below 256.
  Floats are read as the exact rationals they stand for: the literal \<^verbatim>\<open>0.8\<close> is \<open>8/10\<close> and
  \<^verbatim>\<open>len(a) / len(b)\<close> is the exact quotient. The calls to the logger have no effect on
  the result and are not part of the model.
\<close>

datatype pyval =
    PNone
  | PInt int
  | PStr string
  | PList "pyval list"
  | PDict "(string \<times> pyval) list"

text \<open>The exceptions the interpreter raises in the comparator, by class.\<close>

datatype py_exn = AttributeError | TypeError | ValueError

type_synonym 'a result = "py_exn + 'a"

definition bind_result :: "'a result \<Rightarrow> ('a \<Rightarrow> 'b result) \<Rightarrow> 'b result" where
  "bind_result m f = (case m of Inl e \<Rightarrow> Inl e | Inr x \<Rightarrow> f x)"

type_synonym pydict = "string \<rightharpoonup> pyval"

text \<open>\<^verbatim>\<open>d.get(key, default)\<close>\<close>

definition dict_get :: "pydict \<Rightarrow> string \<Rightarrow> pyval \<Rightarrow> pyval" where
  "dict_get d k dflt = (case d k of None \<Rightarrow> dflt | Some v \<Rightarrow> v)"

text \<open>Truth value of an object, as \<^verbatim>\<open>not x\<close> tests it.\<close>

fun py_truthy :: "pyval \<Rightarrow> bool" where
  "py_truthy PNone = False"
| "py_truthy (PInt i) = (i \<noteq> 0)"
| "py_truthy (PStr s) = (s \<noteq> [])"
| "py_truthy (PList xs) = (xs \<noteq> [])"
| "py_truthy (PDict kvs) = (kvs \<noteq> [])"

text \<open>\<^verbatim>\<open>len(x)\<close>: defined on strings, lists and dictionaries, a \<^verbatim>\<open>TypeError\<close> otherwise.\<close>

fun py_len :: "pyval \<Rightarrow> int result" where
  "py_len (PStr s) = Inr (int (length s))"
| "py_len (PList xs) = Inr (int (length xs))"
| "py_len (PDict kvs) = Inr (int (length (remdups (map fst kvs))))"
| "py_len PNone = Inl TypeError"
| "py_len (PInt i) = Inl TypeError"

text \<open>\<^verbatim>\<open>a - b\<close>: defined on two integers, a \<^verbatim>\<open>TypeError\<close> otherwise.\<close>

fun py_sub :: "pyval \<Rightarrow> pyval \<Rightarrow> pyval result" where
  "py_sub (PInt a) (PInt b) = Inr (PInt (a - b))"
| "py_sub a b = Inl TypeError"

section \<open>String primitives\<close>

text \<open>
  \<^verbatim>\<open>str.isspace\<close> on the code points below 256: tab, line feed, vertical tab, form feed,
  carriage return, the four separators 28 to 31, space, next line (133) and no-break
  space (160).
\<close>

definition is_space :: "char \<Rightarrow> bool" where
  "is_space c = ((of_char c :: nat) \<in> set [9, 10, 11, 12, 13, 28, 29, 30, 31, 32, 133, 160])"

text \<open>
  \<^verbatim>\<open>str.lower\<close> on the code points below 256: the letters A to Z and the accented capitals
  192 to 222 (215, the multiplication sign, apart) move up by 32.
\<close>

definition lower_char :: "char \<Rightarrow> char" where
  "lower_char c =
     (let n = (of_char c :: nat)
      in if (65 \<le> n \<and> n \<le> 90) \<or> (192 \<le> n \<and> n \<le> 222 \<and> n \<noteq> 215)
         then char_of (n + 32) else c)"

definition py_lower :: "string \<Rightarrow> string" where
  "py_lower s = map lower_char s"

text \<open>
  \<^verbatim>\<open>str.split()\<close> with no argument: the maximal runs of characters that are not
  whitespace, in order; \<open>cur\<close> is the token being read, reversed.
\<close>

fun split_from :: "string \<Rightarrow> string \<Rightarrow> string list" where
  "split_from cur [] = (if cur = [] then [] else [rev cur])"
| "split_from cur (c # cs) =
     (if is_space c
      then (if cur = [] then split_from [] cs else rev cur # split_from [] cs)
      else split_from (c # cur) cs)"

definition py_split :: "string \<Rightarrow> string list" where
  "py_split s = split_from [] s"

text \<open>\<^verbatim>\<open>str.strip()\<close> with no argument.\<close>

definition py_strip :: "string \<Rightarrow> string" where
  "py_strip s = rev (dropWhile is_space (rev (dropWhile is_space s)))"

section \<open>Text similarity\<close>

text \<open>
  \<^verbatim>\<open>_calculate_text_similarity(text1, text2)\<close>. The method \<^verbatim>\<open>lower\<close> exists on strings only;
  on any other value that reaches the call the attribute lookup raises.
\<close>

fun lower_split :: "pyval \<Rightarrow> string set result" where
  "lower_split (PStr s) = Inr (set (py_split (py_lower s)))"
| "lower_split v = Inl AttributeError"

definition calculate_text_similarity :: "pyval \<Rightarrow> pyval \<Rightarrow> rat result" where
  "calculate_text_similarity text1 text2 =
     (if \<not> py_truthy text1 \<and> \<not> py_truthy text2 then Inr 1
      else if \<not> py_truthy text1 \<or> \<not> py_truthy text2 then Inr 0
      else bind_result (lower_split text1) (\<lambda>words1.
           bind_result (lower_split text2) (\<lambda>words2.
             let intersection = words1 \<inter> words2;
                 union = words1 \<union> words2
             in if card union = 0 then Inr 1
                else Inr (of_nat (card intersection) / of_nat (card union)))))"

text \<open>The Jaccard index of two token sets, as the specification words it.\<close>

definition jaccard :: "string set \<Rightarrow> string set \<Rightarrow> rat" where
  "jaccard A B = of_nat (card (A \<inter> B)) / of_nat (card (A \<union> B))"

definition tokens :: "string \<Rightarrow> string set" where
  "tokens s = set (py_split (py_lower s))"

section \<open>Sentence segmentation\<close>

definition is_boundary :: "char \<Rightarrow> bool" where
  "is_boundary c = (c = CHR ''.'' \<or> c = CHR ''!'' \<or> c = CHR ''?'')"

text \<open>
  \<^verbatim>\<open>re.split(r'[.!?]+', text)\<close>: the text up to the next boundary character is a fragment;
  the match is greedy, so the whole run of boundary characters is consumed before the
  next fragment starts. A text that ends in a run gives a last, empty fragment.
\<close>

function re_split :: "string \<Rightarrow> string list" where
  "re_split t =
     (let frag = takeWhile (\<lambda>c. \<not> is_boundary c) t;
          rest = dropWhile (\<lambda>c. \<not> is_boundary c) t
      in if rest = [] then [frag] else frag # re_split (dropWhile is_boundary rest))"
  by pat_completeness auto

termination re_split
proof (relation "measure length")
  show "wf (measure length)"
    by simp
next
  fix t :: string and frag rest :: string
  assume rest: "rest = dropWhile (\<lambda>c. \<not> is_boundary c) t" and ne: "rest \<noteq> []"
  from ne obtain c cs where cons: "rest = c # cs"
    by (cases rest) auto
  have "\<not> \<not> is_boundary (hd rest)"
    using ne unfolding rest by (rule hd_dropWhile)
  then have "is_boundary c"
    by (simp add: cons)
  then have "length (dropWhile is_boundary rest) \<le> length cs"
    by (simp add: cons length_dropWhile_le)
  also have "length cs < length rest"
    by (simp add: cons)
  also have "length rest \<le> length t"
    unfolding rest by (rule length_dropWhile_le)
  finally show "(dropWhile is_boundary rest, t) \<in> measure length"
    by simp
qed

declare re_split.simps [simp del]

text \<open>
  \<^verbatim>\<open>_split_into_sentences(text)\<close>. \<^verbatim>\<open>re.split\<close> accepts a string; handed any other value of
  the model it raises \<^verbatim>\<open>TypeError\<close>.
\<close>

fun split_into_sentences :: "pyval \<Rightarrow> string list result" where
  "split_into_sentences (PStr text) =
     (let sentences = re_split text
      in Inr (map py_strip (filter (\<lambda>s. py_strip s \<noteq> []) sentences)))"
| "split_into_sentences v = Inl TypeError"

text \<open>
  The boundaries themselves, as the specification words them: the maximal runs of
  boundary characters of a text, in order (what \<^verbatim>\<open>re.findall\<close> gives for the pattern).
\<close>

function boundary_runs :: "string \<Rightarrow> string list" where
  "boundary_runs t =
     (let rest = dropWhile (\<lambda>c. \<not> is_boundary c) t
      in if rest = [] then []
         else takeWhile is_boundary rest # boundary_runs (dropWhile is_boundary rest))"
  by pat_completeness auto

termination boundary_runs
proof (relation "measure length")
  show "wf (measure length)"
    by simp
next
  fix t :: string and frag rest :: string
  assume rest: "rest = dropWhile (\<lambda>c. \<not> is_boundary c) t" and ne: "rest \<noteq> []"
  from ne obtain c cs where cons: "rest = c # cs"
    by (cases rest) auto
  have "\<not> \<not> is_boundary (hd rest)"
    using ne unfolding rest by (rule hd_dropWhile)
  then have "is_boundary c"
    by (simp add: cons)
  then have "length (dropWhile is_boundary rest) \<le> length cs"
    by (simp add: cons length_dropWhile_le)
  also have "length cs < length rest"
    by (simp add: cons)
  also have "length rest \<le> length t"
    unfolding rest by (rule length_dropWhile_le)
  finally show "(dropWhile is_boundary rest, t) \<in> measure length"
    by simp
qed

declare boundary_runs.simps [simp del]

text \<open>A text put together again from its fragments and the runs between them.\<close>

fun weave :: "string list \<Rightarrow> string list \<Rightarrow> string" where
  "weave [] rs = []"
| "weave (f # fs) [] = f"
| "weave (f # fs) (r # rs) = f @ r @ weave fs rs"

section \<open>Rendering numbers\<close>

text \<open>The decimal digits of a natural number, and the decimal text of an integer.\<close>

definition digit_char :: "nat \<Rightarrow> char" where
  "digit_char d = char_of (48 + d)"

fun str_nat :: "nat \<Rightarrow> string" where
  "str_nat n = (if n < 10 then [digit_char n] else str_nat (n div 10) @ [digit_char (n mod 10)])"

declare str_nat.simps [simp del]

definition decimal :: "int \<Rightarrow> string" where
  "decimal i = (if i < 0 then CHR ''-'' # str_nat (nat (- i)) else str_nat (nat i))"

text \<open>
  \<^verbatim>\<open>str(n)\<close> for an integer, as an f-string writes it. CPython (3.11, and the security
  releases of the earlier versions) refuses to convert an integer of more than
  \<^verbatim>\<open>sys.int_max_str_digits\<close> decimal digits, the sign not counted, and raises \<^verbatim>\<open>ValueError\<close>;
  the limit is 4300 unless the interpreter is configured otherwise.
\<close>

definition int_max_str_digits :: nat where
  "int_max_str_digits = 4300"

definition str_int :: "int \<Rightarrow> string result" where
  "str_int i =
     (if length (str_nat (nat \<bar>i\<bar>)) > int_max_str_digits then Inl ValueError
      else Inr (decimal i))"

text \<open>
  The text an f-string writes for \<^verbatim>\<open>round(score * 100, 1)\<close> is a parameter of the summary,
  \<open>render :: rat \<Rightarrow> string\<close>, since the rounding and the shortest representation of a binary
  float are not computed here. \<open>exact_percent\<close> is the rendering in exact arithmetic:
  rounded half to even to one decimal place, written with one digit after the point. It
  is what Python prints wherever the float product is not within rounding error of a tie
  (at 23/80 it gives 28.8 where Python gives 28.7); it is used below as one instance of
  \<open>render\<close>, at 0, 1/2, 0.8, 0.81 and 1, where the two agree.
\<close>

definition round_half_even :: "rat \<Rightarrow> int" where
  "round_half_even x =
     (let f = \<lfloor>x\<rfloor>; d = x - of_int f
      in if d < 1 / 2 then f else if 1 / 2 < d then f + 1 else if even f then f else f + 1)"

definition exact_percent :: "rat \<Rightarrow> string" where
  "exact_percent score =
     (let t = round_half_even (score * 100 * 10); a = \<bar>t\<bar>
      in (if t < 0 then ''-'' else []) @ str_nat (nat (a div 10)) @ ''.'' @ str_nat (nat (a mod 10)))"

section \<open>Summary generation\<close>

text \<open>\<^verbatim>\<open>sep.join(parts)\<close>\<close>

fun join_str :: "string \<Rightarrow> string list \<Rightarrow> string" where
  "join_str sep [] = []"
| "join_str sep [p] = p"
| "join_str sep (p # q # ps) = p @ sep @ join_str sep (q # ps)"

text \<open>
  The list \<^verbatim>\<open>summary_parts\<close> that \<^verbatim>\<open>_generate_comparison_summary\<close> builds by appending, one
  binding per statement of the source. An f-string converts its integer only in the branch
  that is taken, and the conversion may raise. The two deltas are read from the dictionary
  with default 0 and compared with 0, which raises \<^verbatim>\<open>TypeError\<close> on a value that is not a
  number.
\<close>

definition summary_parts ::
  "(rat \<Rightarrow> string) \<Rightarrow> rat \<Rightarrow> int \<Rightarrow> int \<Rightarrow> pydict \<Rightarrow> string list result" where
  "summary_parts render similarity_score added_count removed_count structure_diff =
     (let parts0 = [''The documents are '' @ render similarity_score @ ''% similar in content.'']
      in bind_result
           (if added_count > 0
            then bind_result (str_int added_count) (\<lambda>n.
                   Inr (parts0 @ [''Document 2 contains '' @ n
                                  @ '' additional sentence(s) not found in Document 1.'']))
            else Inr parts0) (\<lambda>parts1.
         bind_result
           (if removed_count > 0
            then bind_result (str_int removed_count) (\<lambda>n.
                   Inr (parts1 @ [''Document 2 is missing '' @ n
                                  @ '' sentence(s) that are present in Document 1.'']))
            else Inr parts1) (\<lambda>parts2.
         case dict_get structure_diff ''page_count_diff'' (PInt 0) of
           PInt page_diff \<Rightarrow>
             bind_result
               (if page_diff > 0
                then bind_result (str_int page_diff) (\<lambda>n.
                       Inr (parts2 @ [''Document 2 has '' @ n @ '' more page(s) than Document 1.'']))
                else if page_diff < 0
                then bind_result (str_int \<bar>page_diff\<bar>) (\<lambda>n.
                       Inr (parts2 @ [''Document 2 has '' @ n @ '' fewer page(s) than Document 1.'']))
                else Inr parts2) (\<lambda>parts3.
             case dict_get structure_diff ''table_count_diff'' (PInt 0) of
               PInt table_diff \<Rightarrow>
                 bind_result
                   (if table_diff > 0
                    then bind_result (str_int table_diff) (\<lambda>n.
                           Inr (parts3 @ [''Document 2 has '' @ n
                                          @ '' more table(s) than Document 1.'']))
                    else if table_diff < 0
                    then bind_result (str_int \<bar>table_diff\<bar>) (\<lambda>n.
                           Inr (parts3 @ [''Document 2 has '' @ n
                                          @ '' fewer table(s) than Document 1.'']))
                    else Inr parts3) (\<lambda>parts4.
                   Inr (if similarity_score > 0.8
                        then parts4 @ [''The documents are very similar.'']
                        else if similarity_score > 0.5
                        then parts4 @ [''The documents have moderate similarity.'']
                        else parts4 @ [''The documents are quite different.'']))
             | _ \<Rightarrow> Inl TypeError)
         | _ \<Rightarrow> Inl TypeError)))"

definition generate_comparison_summary ::
  "(rat \<Rightarrow> string) \<Rightarrow> rat \<Rightarrow> int \<Rightarrow> int \<Rightarrow> pydict \<Rightarrow> string result" where
  "generate_comparison_summary render similarity_score added_count removed_count structure_diff =
     bind_result (summary_parts render similarity_score added_count removed_count structure_diff)
       (\<lambda>parts. Inr (join_str '' '' parts))"

text \<open>\<^verbatim>\<open>s.endswith(suffix)\<close>, used to state how a summary ends.\<close>

definition endswith :: "string \<Rightarrow> string \<Rightarrow> bool" where
  "endswith s sfx = (length sfx \<le> length s \<and> drop (length s - length sfx) s = sfx)"

section \<open>The comparison report\<close>

text \<open>
  The report is a dictionary literal with fixed keys, hence a record. The file name and the
  page count are copied from the inputs as they are; \<^verbatim>\<open>structure_comparison\<close> stays a
  dictionary, since the summary reads it with \<^verbatim>\<open>get\<close>.
\<close>

record doc_info =
  filename :: pyval
  page_count :: pyval
  table_count :: int
  content_length :: int

record diff_info =
  added_content :: "string list"
  removed_content :: "string list"
  common_content_count :: int
  total_added :: int
  total_removed :: int

record comparison_report =
  document1 :: doc_info
  document2 :: doc_info
  similarity_score :: rat
  differences :: diff_info
  structure_comparison :: pydict
  summary :: string

text \<open>
  The body of the \<^verbatim>\<open>try\<close> block of \<^verbatim>\<open>compare_documents\<close>, statement by statement.
  \<open>list_of\<close> is \<^verbatim>\<open>list(s)\<close> on a set: the order in which Python iterates a set is not fixed
  by the language, so it is a parameter. \<open>render\<close> is the rendering of the percentage.
\<close>

definition compare_body ::
  "(string set \<Rightarrow> string list) \<Rightarrow> (rat \<Rightarrow> string) \<Rightarrow> pydict \<Rightarrow> pydict \<Rightarrow> comparison_report result" where
  "compare_body list_of render doc1_analysis doc2_analysis =
     (let doc1_content = dict_get doc1_analysis ''content'' (PStr []);
          doc2_content = dict_get doc2_analysis ''content'' (PStr [])
      in bind_result (calculate_text_similarity doc1_content doc2_content) (\<lambda>score.
         bind_result (split_into_sentences doc1_content) (\<lambda>doc1_sentences.
         bind_result (split_into_sentences doc2_content) (\<lambda>doc2_sentences.
           let doc1_sentence_set = set doc1_sentences;
               doc2_sentence_set = set doc2_sentences;
               added_sentences = list_of (doc2_sentence_set - doc1_sentence_set);
               removed_sentences = list_of (doc1_sentence_set - doc2_sentence_set);
               common_sentences = list_of (doc1_sentence_set \<inter> doc2_sentence_set)
           in bind_result (py_sub (dict_get doc2_analysis ''page_count'' (PInt 0))
                                  (dict_get doc1_analysis ''page_count'' (PInt 0))) (\<lambda>page_count_diff.
              bind_result (py_len (dict_get doc2_analysis ''tables'' (PList []))) (\<lambda>doc2_tables.
              bind_result (py_len (dict_get doc1_analysis ''tables'' (PList []))) (\<lambda>doc1_tables.
                let structure = [''page_count_diff'' \<mapsto> page_count_diff,
                                 ''table_count_diff'' \<mapsto> PInt (doc2_tables - doc1_tables),
                                 ''doc1_pages'' \<mapsto> dict_get doc1_analysis ''page_count'' (PInt 0),
                                 ''doc2_pages'' \<mapsto> dict_get doc2_analysis ''page_count'' (PInt 0),
                                 ''doc1_tables'' \<mapsto> PInt doc1_tables,
                                 ''doc2_tables'' \<mapsto> PInt doc2_tables]
                in bind_result (py_len doc1_content) (\<lambda>doc1_length.
                   bind_result (py_len doc2_content) (\<lambda>doc2_length.
                   bind_result (generate_comparison_summary render score
                                  (int (length added_sentences)) (int (length removed_sentences))
                                  structure) (\<lambda>summary_text.
                     Inr \<lparr> document1 =
                             \<lparr> filename = dict_get doc1_analysis ''filename'' (PStr ''Document 1''),
                               page_count = dict_get doc1_analysis ''page_count'' (PInt 0),
                               table_count = doc1_tables,
                               content_length = doc1_length \<rparr>,
                           document2 =
                             \<lparr> filename = dict_get doc2_analysis ''filename'' (PStr ''Document 2''),
                               page_count = dict_get doc2_analysis ''page_count'' (PInt 0),
                               table_count = doc2_tables,
                               content_length = doc2_length \<rparr>,
                           similarity_score = score,
                           differences =
                             \<lparr> added_content = take 10 added_sentences,
                               removed_content = take 10 removed_sentences,
                               common_content_count = int (length common_sentences),
                               total_added = int (length added_sentences),
                               total_removed = int (length removed_sentences) \<rparr>,
                           structure_comparison = structure,
                           summary = summary_text \<rparr>))))))))))"

text \<open>
  \<^verbatim>\<open>compare_documents\<close>: the \<^verbatim>\<open>except Exception\<close> handler logs the exception \<open>e\<close> and raises
  \<^verbatim>\<open>Exception(f"Failed to compare documents: {str(e)}")\<close>, here \<open>CompareFailed e\<close>.
\<close>

datatype failure = CompareFailed py_exn

definition compare_documents ::
  "(string set \<Rightarrow> string list) \<Rightarrow> (rat \<Rightarrow> string) \<Rightarrow> pydict \<Rightarrow> pydict \<Rightarrow> failure + comparison_report" where
  "compare_documents list_of render doc1_analysis doc2_analysis =
     (case compare_body list_of render doc1_analysis doc2_analysis of
        Inr report \<Rightarrow> Inr report
      | Inl e \<Rightarrow> Inl (CompareFailed e))"

text \<open>
  What the model asks of \<open>list_of\<close>: the list made from a finite set holds each of its
  elements once.
\<close>

definition lists_sets :: "(string set \<Rightarrow> string list) \<Rightarrow> bool" where
  "lists_sets list_of = (\<forall>S. finite S \<longrightarrow> set (list_of S) = S \<and> distinct (list_of S))"

section \<open>The specification's wording\<close>

text \<open>
  The definitions of this section follow the wording of the specification, not the
  source; the theorems below compare the two.

  The closing sentence of a summary, by the thresholds of the specification.
\<close>

definition closing_qualifier :: "rat \<Rightarrow> string" where
  "closing_qualifier score =
     (if score > 0.8 then ''The documents are very similar.''
      else if score > 0.5 \<and> score \<le> 0.8 then ''The documents have moderate similarity.''
      else ''The documents are quite different.'')"

text \<open>A sentence that is emitted under a condition, and the sentences of a summary in order.\<close>

definition optional :: "bool \<Rightarrow> string \<Rightarrow> string list" where
  "optional emitted s = (if emitted then [s] else [])"

definition summary_sentences :: "(rat \<Rightarrow> string) \<Rightarrow> rat \<Rightarrow> int \<Rightarrow> int \<Rightarrow> int \<Rightarrow> int \<Rightarrow> string list" where
  "summary_sentences render score added removed page_diff table_diff =
     [''The documents are '' @ render score @ ''% similar in content.'']
     @ optional (added > 0)
         (''Document 2 contains '' @ decimal added @ '' additional sentence(s) not found in Document 1.'')
     @ optional (removed > 0)
         (''Document 2 is missing '' @ decimal removed @ '' sentence(s) that are present in Document 1.'')
     @ optional (page_diff \<noteq> 0)
         (''Document 2 has '' @ decimal \<bar>page_diff\<bar> @ (if page_diff > 0 then '' more'' else '' fewer'')
            @ '' page(s) than Document 1.'')
     @ optional (table_diff \<noteq> 0)
         (''Document 2 has '' @ decimal \<bar>table_diff\<bar> @ (if table_diff > 0 then '' more'' else '' fewer'')
            @ '' table(s) than Document 1.'')
     @ [closing_qualifier score]"

text \<open>
  An integer that an f-string can write: one of at most \<open>int_max_str_digits\<close> digits. The
  summary writes a count only when it is positive and a delta only when it is not zero.
\<close>

definition within_str_limit :: "int \<Rightarrow> bool" where
  "within_str_limit i = (length (str_nat (nat \<bar>i\<bar>)) \<le> int_max_str_digits)"

definition counts_render :: "int \<Rightarrow> int \<Rightarrow> int \<Rightarrow> int \<Rightarrow> bool" where
  "counts_render added removed page_diff table_diff =
     ((added > 0 \<longrightarrow> within_str_limit added) \<and> (removed > 0 \<longrightarrow> within_str_limit removed)
      \<and> within_str_limit page_diff \<and> within_str_limit table_diff)"

text \<open>What an analysis result may hold under the keys the comparator reads.\<close>

fun is_PStr :: "pyval \<Rightarrow> bool" where
  "is_PStr (PStr s) = True"
| "is_PStr v = False"

fun is_PInt :: "pyval \<Rightarrow> bool" where
  "is_PInt (PInt i) = True"
| "is_PInt v = False"

fun has_len :: "pyval \<Rightarrow> bool" where
  "has_len (PStr s) = True"
| "has_len (PList xs) = True"
| "has_len (PDict kvs) = True"
| "has_len v = False"

definition absent_or :: "(pyval \<Rightarrow> bool) \<Rightarrow> pyval option \<Rightarrow> bool" where
  "absent_or P entry = (case entry of None \<Rightarrow> True | Some v \<Rightarrow> P v)"

text \<open>
  Every field the comparator computes with is missing or of the type the data model gives
  it: the content a string, the page count an integer, the tables a sequence.
\<close>

definition fields_typed :: "pydict \<Rightarrow> bool" where
  "fields_typed d =
     (absent_or is_PStr (d ''content'') \<and> absent_or is_PInt (d ''page_count'')
      \<and> absent_or has_len (d ''tables''))"

text \<open>An analysis result with its missing fields filled in; \<open>name\<close> stands in for the file name.\<close>

definition with_defaults :: "string \<Rightarrow> pydict \<Rightarrow> pydict" where
  "with_defaults name d =
     [''filename'' \<mapsto> PStr name, ''content'' \<mapsto> PStr [], ''tables'' \<mapsto> PList [],
      ''page_count'' \<mapsto> PInt 0] ++ d"

text \<open>
  The sentences, the page count and the number of tables of an analysis result, and the
  condition that the summary of a comparison can write its four numbers: the added and
  removed sentence counts and the two deltas.
\<close>

definition sentences_of :: "pydict \<Rightarrow> string set" where
  "sentences_of d =
     (case split_into_sentences (dict_get d ''content'' (PStr [])) of
        Inr ss \<Rightarrow> set ss | Inl e \<Rightarrow> {})"

definition pages_of :: "pydict \<Rightarrow> int" where
  "pages_of d = (case dict_get d ''page_count'' (PInt 0) of PInt p \<Rightarrow> p | _ \<Rightarrow> 0)"

definition tables_of :: "pydict \<Rightarrow> int" where
  "tables_of d = (case py_len (dict_get d ''tables'' (PList [])) of Inr n \<Rightarrow> n | Inl e \<Rightarrow> 0)"

definition report_renders :: "(string set \<Rightarrow> string list) \<Rightarrow> pydict \<Rightarrow> pydict \<Rightarrow> bool" where
  "report_renders list_of d1 d2 =
     (within_str_limit (int (length (list_of (sentences_of d2 - sentences_of d1))))
      \<and> within_str_limit (int (length (list_of (sentences_of d1 - sentences_of d2))))
      \<and> within_str_limit (pages_of d2 - pages_of d1)
      \<and> within_str_limit (tables_of d2 - tables_of d1))"

section \<open>Properties of the similarity score\<close>

lemma similarity_of_strings:
  "calculate_text_similarity (PStr a) (PStr b) =
     Inr (if a = [] \<and> b = [] then 1
          else if a = [] \<or> b = [] then 0
          else if card (tokens a \<union> tokens b) = 0 then 1
          else jaccard (tokens a) (tokens b))"
  by (simp add: calculate_text_similarity_def bind_result_def tokens_def jaccard_def Let_def)

lemma finite_tokens: "finite (tokens a)"
  by (simp add: tokens_def)

lemma jaccard_commute: "jaccard A B = jaccard B A"
  by (simp add: jaccard_def Int_commute Un_commute)

lemma jaccard_range:
  assumes "finite A" and "finite B"
  shows "0 \<le> jaccard A B \<and> jaccard A B \<le> 1"
proof -
  have "card (A \<inter> B) \<le> card (A \<union> B)"
    using assms by (intro card_mono) auto
  then have "(of_nat (card (A \<inter> B)) :: rat) \<le> of_nat (card (A \<union> B))"
    by simp
  then have "(of_nat (card (A \<inter> B)) :: rat) / of_nat (card (A \<union> B)) \<le> 1"
    by (auto simp: divide_le_eq_1)
  moreover have "(0::rat) \<le> of_nat (card (A \<inter> B)) / of_nat (card (A \<union> B))"
    by simp
  ultimately show ?thesis
    by (simp add: jaccard_def)
qed

text \<open>
  C1. On two strings \<^verbatim>\<open>_calculate_text_similarity\<close> returns 1 when both are empty, 0 when
  exactly one is empty, and otherwise the Jaccard index of the two sets of lower-cased,
  whitespace-split tokens, with 1 when the union of the token sets is empty; the
  similarity of \<^verbatim>\<open>"a b"\<close> and \<^verbatim>\<open>"a c"\<close> is 1/3.
\<close>

theorem C1_similarity_is_jaccard:
  "calculate_text_similarity (PStr a) (PStr b) =
     Inr (if a = [] \<and> b = [] then 1
          else if (a = []) \<noteq> (b = []) then 0
          else if tokens a \<union> tokens b = {} then 1
          else jaccard (tokens a) (tokens b))
   \<and> tokens a = set (py_split (map lower_char a))
   \<and> calculate_text_similarity (PStr ''a b'') (PStr ''a c'') = Inr (1 / 3)"
proof -
  have general: "calculate_text_similarity (PStr a) (PStr b) =
     Inr (if a = [] \<and> b = [] then 1
          else if (a = []) \<noteq> (b = []) then 0
          else if tokens a \<union> tokens b = {} then 1
          else jaccard (tokens a) (tokens b))"
    using finite_tokens [of a] finite_tokens [of b]
    by (auto simp: similarity_of_strings)
  have toks: "tokens a = set (py_split (map lower_char a))"
    by (simp add: tokens_def py_lower_def)
  have example: "calculate_text_similarity (PStr ''a b'') (PStr ''a c'') = Inr (1 / 3)"
    by code_simp
  from general toks example show ?thesis
    by blast
qed

theorem C1_similarity_witness:
  "calculate_text_similarity (PStr ''The cat'') (PStr ''the dog'') = Inr (1 / 3)"
proof -
  have j: "jaccard (tokens ''The cat'') (tokens ''the dog'') = 1 / 3"
    by code_simp
  have u: "tokens ''The cat'' \<union> tokens ''the dog'' \<noteq> {}"
    by code_simp
  from C1_similarity_is_jaccard [of "''The cat''" "''the dog''"] show ?thesis
    using j u by simp
qed

text \<open>
  C7. On two strings the similarity is symmetric in its arguments, and the value returned
  lies in the closed interval from 0 to 1.
\<close>

theorem C7_similarity_symmetric_bounded:
  "calculate_text_similarity (PStr a) (PStr b) = calculate_text_similarity (PStr b) (PStr a)
   \<and> (\<exists>x. calculate_text_similarity (PStr a) (PStr b) = Inr x \<and> 0 \<le> x \<and> x \<le> 1)"
proof -
  have sym: "calculate_text_similarity (PStr a) (PStr b) = calculate_text_similarity (PStr b) (PStr a)"
    by (auto simp: similarity_of_strings jaccard_commute [of "tokens a" "tokens b"] Un_commute)
  have "0 \<le> jaccard (tokens a) (tokens b) \<and> jaccard (tokens a) (tokens b) \<le> 1"
    by (rule jaccard_range) (rule finite_tokens)+
  then have "\<exists>x. calculate_text_similarity (PStr a) (PStr b) = Inr x \<and> 0 \<le> x \<and> x \<le> 1"
    by (simp add: similarity_of_strings)
  with sym show ?thesis
    by blast
qed

theorem C7_similarity_witness:
  "calculate_text_similarity (PStr ''x y z'') (PStr ''Y'') = Inr (1 / 3)
   \<and> calculate_text_similarity (PStr ''Y'') (PStr ''x y z'') = Inr (1 / 3)"
proof -
  have e: "calculate_text_similarity (PStr ''x y z'') (PStr ''Y'') = Inr (1 / 3)"
    by code_simp
  from C7_similarity_symmetric_bounded [of "''x y z''" "''Y''"] show ?thesis
    unfolding e by simp
qed

section \<open>Properties of the segmentation\<close>

lemma re_split_last:
  "dropWhile (\<lambda>c. \<not> is_boundary c) t = [] \<Longrightarrow> re_split t = [takeWhile (\<lambda>c. \<not> is_boundary c) t]"
  by (subst re_split.simps) (simp only: Let_def simp_thms if_True)

lemma re_split_step:
  "dropWhile (\<lambda>c. \<not> is_boundary c) t \<noteq> [] \<Longrightarrow>
   re_split t = takeWhile (\<lambda>c. \<not> is_boundary c) t
                  # re_split (dropWhile is_boundary (dropWhile (\<lambda>c. \<not> is_boundary c) t))"
  by (subst re_split.simps) (simp only: Let_def if_False)

lemma boundary_runs_last:
  "dropWhile (\<lambda>c. \<not> is_boundary c) t = [] \<Longrightarrow> boundary_runs t = []"
  by (subst boundary_runs.simps) (simp only: Let_def simp_thms if_True)

lemma boundary_runs_step:
  "dropWhile (\<lambda>c. \<not> is_boundary c) t \<noteq> [] \<Longrightarrow>
   boundary_runs t = takeWhile is_boundary (dropWhile (\<lambda>c. \<not> is_boundary c) t)
                  # boundary_runs (dropWhile is_boundary (dropWhile (\<lambda>c. \<not> is_boundary c) t))"
  by (subst boundary_runs.simps) (simp only: Let_def if_False)

lemma re_split_not_Nil: "re_split t \<noteq> []"
  by (cases "dropWhile (\<lambda>c. \<not> is_boundary c) t = []") (simp_all only: re_split_last re_split_step list.distinct not_False_eq_True)

lemma fragments_clean: "f \<in> set (re_split t) \<Longrightarrow> c \<in> set f \<Longrightarrow> \<not> is_boundary c"
proof (induction t rule: re_split.induct)
  case (1 t)
  let ?rest = "dropWhile (\<lambda>c. \<not> is_boundary c) t"
  have first: "\<not> is_boundary c" if "f = takeWhile (\<lambda>c. \<not> is_boundary c) t"
    using that "1.prems"(2) by (auto dest: set_takeWhileD)
  show ?case
  proof (cases "?rest = []")
    case True
    from "1.prems"(1) have "f \<in> set [takeWhile (\<lambda>c. \<not> is_boundary c) t]"
      unfolding re_split_last [OF True] .
    then show ?thesis
      using first by simp
  next
    case False
    from "1.prems"(1) have "f \<in> set (takeWhile (\<lambda>c. \<not> is_boundary c) t
        # re_split (dropWhile is_boundary ?rest))"
      unfolding re_split_step [OF False] .
    then have "f = takeWhile (\<lambda>c. \<not> is_boundary c) t
        \<or> f \<in> set (re_split (dropWhile is_boundary ?rest))"
      by simp
    then show ?thesis
      using first "1.IH" [OF refl refl False _ "1.prems"(2)] by blast
  qed
qed

lemma runs_are_boundaries:
  "r \<in> set (boundary_runs t) \<Longrightarrow> r \<noteq> [] \<and> (\<forall>c\<in>set r. is_boundary c)"
proof (induction t rule: boundary_runs.induct)
  case (1 t)
  let ?rest = "dropWhile (\<lambda>c. \<not> is_boundary c) t"
  show ?case
  proof (cases "?rest = []")
    case True
    from "1.prems" have "r \<in> set []"
      unfolding boundary_runs_last [OF True] .
    then show ?thesis
      by simp
  next
    case False
    from "1.prems" have "r \<in> set (takeWhile is_boundary ?rest
        # boundary_runs (dropWhile is_boundary ?rest))"
      unfolding boundary_runs_step [OF False] .
    then have "r = takeWhile is_boundary ?rest
        \<or> r \<in> set (boundary_runs (dropWhile is_boundary ?rest))"
      by simp
    then show ?thesis
    proof
      assume r: "r = takeWhile is_boundary ?rest"
      have "\<not> \<not> is_boundary (hd ?rest)"
        using False by (rule hd_dropWhile)
      with False have "takeWhile is_boundary ?rest \<noteq> []"
        by (cases ?rest) simp_all
      with r show ?thesis
        by (auto dest: set_takeWhileD)
    next
      assume "r \<in> set (boundary_runs (dropWhile is_boundary ?rest))"
      then show ?thesis
        by (rule "1.IH" [OF refl False])
    qed
  qed
qed

lemma length_re_split: "length (re_split t) = Suc (length (boundary_runs t))"
proof (induction t rule: re_split.induct)
  case (1 t)
  show ?case
  proof (cases "dropWhile (\<lambda>c. \<not> is_boundary c) t = []")
    case True
    show ?thesis
      unfolding re_split_last [OF True] boundary_runs_last [OF True] by simp
  next
    case False
    show ?thesis
      unfolding re_split_step [OF False] boundary_runs_step [OF False]
      using "1.IH" [OF refl refl False] by simp
  qed
qed

lemma weave_split_runs: "weave (re_split t) (boundary_runs t) = t"
proof (induction t rule: re_split.induct)
  case (1 t)
  let ?rest = "dropWhile (\<lambda>c. \<not> is_boundary c) t"
  have whole: "takeWhile (\<lambda>c. \<not> is_boundary c) t @ ?rest = t"
    by (rule takeWhile_dropWhile_id)
  show ?case
  proof (cases "?rest = []")
    case True
    have "weave (re_split t) (boundary_runs t) = takeWhile (\<lambda>c. \<not> is_boundary c) t"
      unfolding re_split_last [OF True] boundary_runs_last [OF True] by simp
    also have "\<dots> = t"
      using whole unfolding True by simp
    finally show ?thesis .
  next
    case False
    have "weave (re_split t) (boundary_runs t) =
        takeWhile (\<lambda>c. \<not> is_boundary c) t @ takeWhile is_boundary ?rest
          @ weave (re_split (dropWhile is_boundary ?rest)) (boundary_runs (dropWhile is_boundary ?rest))"
      unfolding re_split_step [OF False] boundary_runs_step [OF False] by simp
    also have "\<dots> = takeWhile (\<lambda>c. \<not> is_boundary c) t @ takeWhile is_boundary ?rest
          @ dropWhile is_boundary ?rest"
      unfolding "1.IH" [OF refl refl False] ..
    also have "\<dots> = takeWhile (\<lambda>c. \<not> is_boundary c) t @ ?rest"
      unfolding takeWhile_dropWhile_id ..
    also have "\<dots> = t"
      by (rule whole)
    finally show ?thesis .
  qed
qed


lemma inner_fragments_aux:
  "t = [] \<or> \<not> is_boundary (hd t) \<Longrightarrow> f \<in> set (butlast (re_split t)) \<Longrightarrow> f \<noteq> []"
proof (induction t rule: re_split.induct)
  case (1 t)
  let ?rest = "dropWhile (\<lambda>c. \<not> is_boundary c) t"
  let ?next = "dropWhile is_boundary ?rest"
  show ?case
  proof (cases "?rest = []")
    case True
    from "1.prems"(2) have "f \<in> set (butlast [takeWhile (\<lambda>c. \<not> is_boundary c) t])"
      unfolding re_split_last [OF True] .
    then show ?thesis
      by simp
  next
    case False
    then have "t \<noteq> []"
      by auto
    with "1.prems"(1) have "takeWhile (\<lambda>c. \<not> is_boundary c) t \<noteq> []"
      by (cases t) auto
    moreover from "1.prems"(2)
    have "f \<in> set (butlast (takeWhile (\<lambda>c. \<not> is_boundary c) t # re_split ?next))"
      unfolding re_split_step [OF False] .
    then have "f = takeWhile (\<lambda>c. \<not> is_boundary c) t \<or> f \<in> set (butlast (re_split ?next))"
      using re_split_not_Nil [of ?next] by simp
    moreover have "?next = [] \<or> \<not> is_boundary (hd ?next)"
      using hd_dropWhile [of is_boundary ?rest] by blast
    ultimately show ?thesis
      using "1.IH" [OF refl refl False] by metis
  qed
qed

lemma inner_fragments:
  assumes f: "f \<in> set (butlast (tl (re_split t)))"
  shows "f \<noteq> []"
proof -
  let ?rest = "dropWhile (\<lambda>c. \<not> is_boundary c) t"
  let ?next = "dropWhile is_boundary ?rest"
  show ?thesis
  proof (cases "?rest = []")
    case True
    from f have "f \<in> set (butlast (tl [takeWhile (\<lambda>c. \<not> is_boundary c) t]))"
      unfolding re_split_last [OF True] .
    then show ?thesis
      by simp
  next
    case False
    from f have "f \<in> set (butlast (tl (takeWhile (\<lambda>c. \<not> is_boundary c) t # re_split ?next)))"
      unfolding re_split_step [OF False] .
    then have "f \<in> set (butlast (re_split ?next))"
      by simp
    moreover have "?next = [] \<or> \<not> is_boundary (hd ?next)"
      using hd_dropWhile [of is_boundary ?rest] by blast
    ultimately show ?thesis
      by (rule inner_fragments_aux [rotated])
  qed
qed

lemma sentences_of_string:
  "split_into_sentences (PStr t) = Inr (filter (\<lambda>s. s \<noteq> []) (map py_strip (re_split t)))"
  by (simp add: filter_map comp_def)

lemma set_strip: "c \<in> set (py_strip s) \<Longrightarrow> c \<in> set s"
proof -
  assume "c \<in> set (py_strip s)"
  then have "c \<in> set (dropWhile is_space (rev (dropWhile is_space s)))"
    by (simp add: py_strip_def)
  then have "c \<in> set (rev (dropWhile is_space s))"
    by (rule set_dropWhileD)
  then have "c \<in> set (dropWhile is_space s)"
    by simp
  then show ?thesis
    by (rule set_dropWhileD)
qed

lemma strip_ends:
  assumes "py_strip s \<noteq> []"
  shows "\<not> is_space (hd (py_strip s)) \<and> \<not> is_space (last (py_strip s))"
proof -
  define ys where "ys = dropWhile is_space s"
  define zs where "zs = dropWhile is_space (rev ys)"
  have strip: "py_strip s = rev zs"
    by (simp add: py_strip_def ys_def zs_def)
  from assms have zs: "zs \<noteq> []"
    by (simp add: strip)
  then have ys: "ys \<noteq> []"
    unfolding zs_def by auto
  have "\<not> is_space (hd zs)"
    using zs unfolding zs_def by (rule hd_dropWhile)
  then have l: "\<not> is_space (last (py_strip s))"
    using zs by (simp add: strip last_rev)
  have "rev ys = takeWhile is_space (rev ys) @ zs"
    unfolding zs_def by simp
  then have "last (rev ys) = last (takeWhile is_space (rev ys) @ zs)"
    by simp
  also have "\<dots> = last zs"
    using zs by simp
  finally have "last zs = hd ys"
    using ys by (simp add: last_rev)
  moreover have "\<not> is_space (hd ys)"
    using ys unfolding ys_def by (rule hd_dropWhile)
  ultimately have "\<not> is_space (hd (py_strip s))"
    using zs by (simp add: strip hd_rev)
  with l show ?thesis
    by simp
qed


text \<open>
  C3. \<^verbatim>\<open>_split_into_sentences\<close> splits a string at each maximal run of the characters
  \<^verbatim>\<open>.\<close>, \<^verbatim>\<open>!\<close> and \<^verbatim>\<open>?\<close>: the fragments and the runs between them, woven together, give
  the text back; every run is a non-empty string of boundary characters; no fragment holds
  a boundary character; and no fragment between two runs is empty, so a run such as
  \<^verbatim>\<open>...\<close> or \<^verbatim>\<open>?!\<close> is one boundary. The result is the fragments in order of
  appearance, each trimmed of surrounding whitespace, without those that are empty after
  trimming. \<^verbatim>\<open>"Hello. World! How are you?"\<close> gives \<^verbatim>\<open>["Hello", "World", "How are you"]\<close>,
  and both the empty string and \<^verbatim>\<open>"..."\<close> give the empty list.
\<close>

theorem C3_sentences_split_on_runs:
  "split_into_sentences (PStr t) = Inr (filter (\<lambda>s. s \<noteq> []) (map py_strip (re_split t)))
   \<and> weave (re_split t) (boundary_runs t) = t
   \<and> length (re_split t) = Suc (length (boundary_runs t))
   \<and> (\<forall>r\<in>set (boundary_runs t). r \<noteq> [] \<and> (\<forall>c\<in>set r. is_boundary c))
   \<and> (\<forall>f\<in>set (re_split t). \<forall>c\<in>set f. \<not> is_boundary c)
   \<and> (\<forall>f\<in>set (butlast (tl (re_split t))). f \<noteq> [])
   \<and> split_into_sentences (PStr ''Hello. World! How are you?'')
        = Inr [''Hello'', ''World'', ''How are you'']
   \<and> split_into_sentences (PStr []) = Inr []
   \<and> split_into_sentences (PStr ''...'') = Inr []"
proof -
  have ex1: "split_into_sentences (PStr ''Hello. World! How are you?'')
      = Inr [''Hello'', ''World'', ''How are you'']"
    by code_simp
  have ex2: "split_into_sentences (PStr []) = Inr []"
    by code_simp
  have ex3: "split_into_sentences (PStr ''...'') = Inr []"
    by code_simp
  have runs: "\<forall>r\<in>set (boundary_runs t). r \<noteq> [] \<and> (\<forall>c\<in>set r. is_boundary c)"
    using runs_are_boundaries by blast
  have clean: "\<forall>f\<in>set (re_split t). \<forall>c\<in>set f. \<not> is_boundary c"
    using fragments_clean by blast
  have inner: "\<forall>f\<in>set (butlast (tl (re_split t))). f \<noteq> []"
    using inner_fragments by blast
  show ?thesis
    using sentences_of_string [of t] weave_split_runs [of t] length_re_split [of t]
      runs clean inner ex1 ex2 ex3
    by blast
qed

theorem C3_sentences_witness:
  "split_into_sentences (PStr ''Wait... What?! Go'') = Inr [''Wait'', ''What'', ''Go'']
   \<and> weave [''Wait'', '' What'', '' Go''] [''...'', ''?!''] = ''Wait... What?! Go''"
proof -
  have frags: "re_split ''Wait... What?! Go'' = [''Wait'', '' What'', '' Go'']"
    by code_simp
  have runs: "boundary_runs ''Wait... What?! Go'' = [''...'', ''?!'']"
    by code_simp
  have trimmed: "filter (\<lambda>s. s \<noteq> []) (map py_strip [''Wait'', '' What'', '' Go''])
      = [''Wait'', ''What'', ''Go'']"
    by code_simp
  from C3_sentences_split_on_runs [of "''Wait... What?! Go''"] show ?thesis
    unfolding frags runs trimmed by blast
qed

text \<open>
  C10. On every string \<^verbatim>\<open>_split_into_sentences\<close> returns a list, and every element of it is
  a non-empty string that neither starts nor ends with whitespace and holds none of the
  characters \<^verbatim>\<open>.\<close>, \<^verbatim>\<open>!\<close> and \<^verbatim>\<open>?\<close>.
\<close>

theorem C10_sentences_are_trimmed:
  "\<exists>ss. split_into_sentences (PStr t) = Inr ss
     \<and> (\<forall>s\<in>set ss. s \<noteq> [] \<and> \<not> is_space (hd s) \<and> \<not> is_space (last s)
          \<and> (\<forall>c\<in>set s. c \<noteq> CHR ''.'' \<and> c \<noteq> CHR ''!'' \<and> c \<noteq> CHR ''?''))"
proof -
  let ?ss = "filter (\<lambda>s. s \<noteq> []) (map py_strip (re_split t))"
  have "s \<noteq> [] \<and> \<not> is_space (hd s) \<and> \<not> is_space (last s)
      \<and> (\<forall>c\<in>set s. c \<noteq> CHR ''.'' \<and> c \<noteq> CHR ''!'' \<and> c \<noteq> CHR ''?'')"
    if "s \<in> set ?ss" for s
  proof -
    from that obtain f where f: "f \<in> set (re_split t)" and s: "s = py_strip f" and ne: "s \<noteq> []"
      by auto
    have "\<not> is_boundary c" if "c \<in> set s" for c
      using that f s fragments_clean set_strip by blast
    then have "\<forall>c\<in>set s. c \<noteq> CHR ''.'' \<and> c \<noteq> CHR ''!'' \<and> c \<noteq> CHR ''?''"
      by (auto simp: is_boundary_def)
    moreover have "\<not> is_space (hd s) \<and> \<not> is_space (last s)"
      using strip_ends [of f] ne s by simp
    ultimately show ?thesis
      using ne by simp
  qed
  then show ?thesis
    unfolding sentences_of_string by blast
qed

theorem C10_sentences_witness:
  "split_into_sentences (PStr '' Hi there.  Bye! '') = Inr [''Hi there'', ''Bye'']
   \<and> \<not> is_space (hd ''Hi there'') \<and> \<not> is_space (last ''Hi there'')
   \<and> \<not> is_space (hd ''Bye'') \<and> \<not> is_space (last ''Bye'')"
proof -
  have e: "split_into_sentences (PStr '' Hi there.  Bye! '') = Inr [''Hi there'', ''Bye'']"
    by code_simp
  from C10_sentences_are_trimmed [of "'' Hi there.  Bye! ''"] show ?thesis
    unfolding e by auto
qed

section \<open>Properties of the summary\<close>

lemma str_nat_not_Nil: "str_nat n \<noteq> []"
  by (subst str_nat.simps) simp

lemma length_str_nat_le: "0 < k \<Longrightarrow> length (str_nat n) \<le> k \<longleftrightarrow> n < 10 ^ k"
proof (induction n arbitrary: k rule: str_nat.induct)
  case (1 n)
  show ?case
  proof (cases "n < 10")
    case True
    have "(10::nat) \<le> 10 ^ k"
      using "1.prems" by (intro self_le_power) simp_all
    with True have "n < 10 ^ k"
      by simp
    moreover have "length (str_nat n) = 1"
      using True by (subst str_nat.simps) simp
    ultimately show ?thesis
      using "1.prems" by simp
  next
    case False
    then have len: "length (str_nat n) = Suc (length (str_nat (n div 10)))"
      by (subst str_nat.simps) simp
    show ?thesis
    proof (cases k)
      case 0
      with "1.prems" show ?thesis
        by simp
    next
      case (Suc j)
      show ?thesis
      proof (cases "j = 0")
        case True
        have "0 < length (str_nat (n div 10))"
          using str_nat_not_Nil [of "n div 10"] by simp
        with True Suc False len show ?thesis
          by simp
      next
        case nonzero: False
        then have "length (str_nat (n div 10)) \<le> j \<longleftrightarrow> n div 10 < 10 ^ j"
          using "1.IH" [OF False, of j] by simp
        moreover have "n div 10 < 10 ^ j \<longleftrightarrow> n < 10 ^ j * 10"
          by (rule div_less_iff_less_mult) simp
        ultimately show ?thesis
          using Suc len by (simp add: mult.commute)
      qed
    qed
  qed
qed

lemma int_max_str_digits_pos: "0 < int_max_str_digits"
  by (simp add: int_max_str_digits_def)

lemma within_str_limit_iff: "within_str_limit i \<longleftrightarrow> \<bar>i\<bar> < 10 ^ int_max_str_digits"
proof -
  have "within_str_limit i \<longleftrightarrow> nat \<bar>i\<bar> < 10 ^ int_max_str_digits"
    unfolding within_str_limit_def by (rule length_str_nat_le) (rule int_max_str_digits_pos)
  also have "\<dots> \<longleftrightarrow> \<bar>i\<bar> < int (10 ^ int_max_str_digits)"
    by (simp add: nat_less_iff)
  also have "int (10 ^ int_max_str_digits) = 10 ^ int_max_str_digits"
    by simp
  finally show ?thesis .
qed

lemma within_zero: "within_str_limit 0"
  by (simp add: within_str_limit_iff)

lemma within_abs: "within_str_limit \<bar>i\<bar> = within_str_limit i"
  by (simp add: within_str_limit_iff)

lemma within_neg: "within_str_limit (- i) = within_str_limit i"
  by (simp add: within_str_limit_iff)

lemma str_int_if: "str_int i = (if within_str_limit i then Inr (decimal i) else Inl ValueError)"
  by (simp add: str_int_def within_str_limit_def not_le)

lemma bind_if:
  "bind_result (if c then Inr x else Inl e) f = (if c then f x else Inl e)"
  by (simp add: bind_result_def)

lemma count_part:
  "(if n > 0 then bind_result (str_int n) (\<lambda>s. Inr (ps @ [pre @ s @ post])) else Inr ps)
     = (if n > 0 \<longrightarrow> within_str_limit n
        then Inr (ps @ optional (n > 0) (pre @ decimal n @ post)) else Inl ValueError)"
  by (simp add: str_int_if bind_result_def optional_def)

lemma delta_part:
  "(if d > 0 then bind_result (str_int d) (\<lambda>s. Inr (ps @ [pre @ s @ up]))
    else if d < 0 then bind_result (str_int \<bar>d\<bar>) (\<lambda>s. Inr (ps @ [pre @ s @ down]))
    else Inr ps)
     = (if within_str_limit d
        then Inr (ps @ optional (d \<noteq> 0) (pre @ decimal \<bar>d\<bar> @ (if d > 0 then up else down)))
        else Inl ValueError)"
  by (auto simp: str_int_if bind_result_def optional_def within_abs within_neg within_zero)

lemma summary_parts_ints:
  assumes pd: "dict_get sd ''page_count_diff'' (PInt 0) = PInt pd"
    and td: "dict_get sd ''table_count_diff'' (PInt 0) = PInt td"
  shows "summary_parts render score added removed sd
           = (if counts_render added removed pd td
              then Inr (summary_sentences render score added removed pd td)
              else Inl ValueError)"
proof -
  have "summary_parts render score added removed sd
      = (if added > 0 \<longrightarrow> within_str_limit added
         then if removed > 0 \<longrightarrow> within_str_limit removed
           then if within_str_limit pd
             then if within_str_limit td
               then Inr (((((([''The documents are '' @ render score @ ''% similar in content.'']
                 @ optional (added > 0) (''Document 2 contains '' @ decimal added
                     @ '' additional sentence(s) not found in Document 1.''))
                 @ optional (removed > 0) (''Document 2 is missing '' @ decimal removed
                     @ '' sentence(s) that are present in Document 1.''))
                 @ optional (pd \<noteq> 0) (''Document 2 has '' @ decimal \<bar>pd\<bar>
                     @ (if pd > 0 then '' more page(s) than Document 1.''
                        else '' fewer page(s) than Document 1.'')))
                 @ optional (td \<noteq> 0) (''Document 2 has '' @ decimal \<bar>td\<bar>
                     @ (if td > 0 then '' more table(s) than Document 1.''
                        else '' fewer table(s) than Document 1.'')))
                 @ [closing_qualifier score]))
               else Inl ValueError
             else Inl ValueError
           else Inl ValueError
         else Inl ValueError)"
    unfolding summary_parts_def Let_def pd td pyval.case count_part delta_part bind_if
      closing_qualifier_def
    by (simp only: if_distrib [of "\<lambda>x. _ @ x"] if_distrib [of Inr] order.strict_iff_not [symmetric] not_less)
       (auto simp: not_less)
  also have "\<dots> = (if counts_render added removed pd td
              then Inr (summary_sentences render score added removed pd td)
              else Inl ValueError)"
    by (simp add: counts_render_def summary_sentences_def)
  finally show ?thesis .
qed


lemma within_small: "\<bar>i\<bar> < 1000 \<Longrightarrow> within_str_limit i"
proof -
  assume "\<bar>i\<bar> < 1000"
  also have "(1000::int) = 10 ^ 3"
    by simp
  also have "(10::int) ^ 3 \<le> 10 ^ int_max_str_digits"
    by (rule power_increasing) (simp_all add: int_max_str_digits_def)
  finally show ?thesis
    by (simp add: within_str_limit_iff)
qed

lemma summary_of_ints:
  assumes "dict_get sd ''page_count_diff'' (PInt 0) = PInt pd"
    and "dict_get sd ''table_count_diff'' (PInt 0) = PInt td"
  shows "generate_comparison_summary render score added removed sd
           = (if counts_render added removed pd td
              then Inr (join_str '' '' (summary_sentences render score added removed pd td))
              else Inl ValueError)"
  by (simp add: generate_comparison_summary_def bind_result_def summary_parts_ints [OF assms])

lemma join_str_snoc: "ps \<noteq> [] \<Longrightarrow> join_str sep (ps @ [p]) = join_str sep ps @ sep @ p"
  by (induction sep ps rule: join_str.induct) auto

lemma endswith_append: "endswith (a @ b) b"
  by (simp add: endswith_def)

text \<open>
  C4. When the two deltas of the structure dictionary are integers (or missing, read as 0),
  every summary that \<^verbatim>\<open>_generate_comparison_summary\<close> returns is the sentences joined by
  single spaces, in the fixed order: the similarity percentage; the added sentence, only
  when the count is positive; the removed sentence, only when the count is positive; the
  page sentence, only when the delta is not zero; the table sentence, only when the delta
  is not zero; and one closing sentence, with which the summary ends. The closing sentence
  is "very similar" for a score above 0.8, "moderate similarity" for a score above 0.5 and
  at most 0.8, and "quite different" otherwise. The summary is returned whenever the
  numbers it writes are within the interpreter's limit on the digits of an integer.
\<close>

theorem C4_summary_assembly:
  assumes "dict_get sd ''page_count_diff'' (PInt 0) = PInt pd"
    and "dict_get sd ''table_count_diff'' (PInt 0) = PInt td"
  shows "(counts_render added removed pd td
            \<longrightarrow> generate_comparison_summary render score added removed sd
                  = Inr (join_str '' '' (summary_sentences render score added removed pd td)))
         \<and> (\<forall>s. generate_comparison_summary render score added removed sd = Inr s
              \<longrightarrow> counts_render added removed pd td
                  \<and> s = join_str '' '' (summary_sentences render score added removed pd td))
         \<and> endswith (join_str '' '' (summary_sentences render score added removed pd td))
              ('' '' @ closing_qualifier score)
         \<and> (score > 0.8 \<longrightarrow> closing_qualifier score = ''The documents are very similar.'')
         \<and> (score > 0.5 \<and> score \<le> 0.8
              \<longrightarrow> closing_qualifier score = ''The documents have moderate similarity.'')
         \<and> (score \<le> 0.5 \<longrightarrow> closing_qualifier score = ''The documents are quite different.'')"
proof -
  note whole = summary_of_ints [OF assms, of render score added removed]
  have returned: "counts_render added removed pd td
      \<longrightarrow> generate_comparison_summary render score added removed sd
            = Inr (join_str '' '' (summary_sentences render score added removed pd td))"
    by (simp add: whole)
  have only: "\<forall>s. generate_comparison_summary render score added removed sd = Inr s
      \<longrightarrow> counts_render added removed pd td
          \<and> s = join_str '' '' (summary_sentences render score added removed pd td)"
    by (auto simp: whole split: if_splits)
  obtain body where body: "summary_sentences render score added removed pd td
      = body @ [closing_qualifier score]" and ne: "body \<noteq> []"
    by (simp add: summary_sentences_def)
  have ends: "endswith (join_str '' '' (summary_sentences render score added removed pd td))
      ('' '' @ closing_qualifier score)"
    unfolding body join_str_snoc [OF ne] by (simp add: endswith_append)
  have "score > 0.8 \<longrightarrow> closing_qualifier score = ''The documents are very similar.''"
    and "score > 0.5 \<and> score \<le> 0.8
      \<longrightarrow> closing_qualifier score = ''The documents have moderate similarity.''"
    and "score \<le> 0.5 \<longrightarrow> closing_qualifier score = ''The documents are quite different.''"
    by (simp_all add: closing_qualifier_def)
  with returned only ends show ?thesis
    by (intro conjI)
qed

theorem C4_summary_witness:
  "generate_comparison_summary exact_percent (1 / 2) 2 1
     [''page_count_diff'' \<mapsto> PInt 1, ''table_count_diff'' \<mapsto> PInt (- 3)]
   = Inr ''The documents are 50.0% similar in content. Document 2 contains 2 additional sentence(s) not found in Document 1. Document 2 is missing 1 sentence(s) that are present in Document 1. Document 2 has 1 more page(s) than Document 1. Document 2 has 3 fewer table(s) than Document 1. The documents are quite different.''"
proof -
  let ?sd = "[''page_count_diff'' \<mapsto> PInt 1, ''table_count_diff'' \<mapsto> PInt (- 3)]"
  have pd: "dict_get ?sd ''page_count_diff'' (PInt 0) = PInt 1"
    by (simp add: dict_get_def)
  have td: "dict_get ?sd ''table_count_diff'' (PInt 0) = PInt (- 3)"
    by (simp add: dict_get_def)
  have ok: "counts_render 2 1 1 (- 3)"
    by (simp add: counts_render_def within_small)
  have rendered: "join_str '' '' (summary_sentences exact_percent (1 / 2) 2 1 1 (- 3))
      = ''The documents are 50.0% similar in content. Document 2 contains 2 additional sentence(s) not found in Document 1. Document 2 is missing 1 sentence(s) that are present in Document 1. Document 2 has 1 more page(s) than Document 1. Document 2 has 3 fewer table(s) than Document 1. The documents are quite different.''"
    by code_simp
  from C4_summary_assembly [OF pd td, of 2 1 exact_percent "1 / 2", THEN conjunct1, THEN mp, OF ok]
  show ?thesis
    unfolding rendered .
qed

text \<open>
  C5 as stated fails: for the score 0.8 the summary does not end with the
  "quite different" sentence.
\<close>

theorem C5_boundary_counterexample:
  "generate_comparison_summary exact_percent 0.8 0 0 Map.empty
     = Inr ''The documents are 80.0% similar in content. The documents have moderate similarity.''
   \<and> \<not> endswith ''The documents are 80.0% similar in content. The documents have moderate similarity.''
         ''The documents are quite different.''"
proof -
  have "generate_comparison_summary exact_percent 0.8 0 0 Map.empty
     = Inr ''The documents are 80.0% similar in content. The documents have moderate similarity.''"
    by code_simp
  moreover have "\<not> endswith ''The documents are 80.0% similar in content. The documents have moderate similarity.''
         ''The documents are quite different.''"
    by code_simp
  ultimately show ?thesis
    by (rule conjI)
qed

text \<open>
  C5, as the code has it. With no added or removed sentences and an empty structure
  dictionary, the summary for the score 0.8 ends with the "moderate similarity" sentence
  (0.8 is not above 0.8, and it is above 0.5), and the summary for 0.81 ends with
  "very similar".
\<close>

theorem C5_boundary_is_moderate:
  "generate_comparison_summary render 0.8 0 0 Map.empty
     = Inr (''The documents are '' @ render 0.8
            @ ''% similar in content. The documents have moderate similarity.'')
   \<and> generate_comparison_summary render 0.81 0 0 Map.empty
     = Inr (''The documents are '' @ render 0.81
            @ ''% similar in content. The documents are very similar.'')"
proof -
  have none: "dict_get Map.empty k (PInt 0) = PInt 0" for k
    by (simp add: dict_get_def)
  have ok: "counts_render 0 0 0 0"
    by (simp add: counts_render_def within_zero)
  have "summary_sentences render 0.8 0 0 0 0
      = [''The documents are '' @ render 0.8 @ ''% similar in content.'',
         ''The documents have moderate similarity.'']"
    by (simp add: summary_sentences_def optional_def closing_qualifier_def)
  moreover have "summary_sentences render 0.81 0 0 0 0
      = [''The documents are '' @ render 0.81 @ ''% similar in content.'',
         ''The documents are very similar.'']"
    by (simp add: summary_sentences_def optional_def closing_qualifier_def)
  ultimately show ?thesis
    by (simp add: summary_of_ints [OF none none] ok)
qed

theorem C5_boundary_witness:
  "generate_comparison_summary exact_percent 0.81 0 0 Map.empty
     = Inr ''The documents are 81.0% similar in content. The documents are very similar.''
   \<and> endswith ''The documents are 81.0% similar in content. The documents are very similar.''
        ''The documents are very similar.''"
proof -
  have r: "exact_percent 0.81 = ''81.0''"
    by code_simp
  have e: "endswith ''The documents are 81.0% similar in content. The documents are very similar.''
        ''The documents are very similar.''"
    by code_simp
  from C5_boundary_is_moderate [of exact_percent] show ?thesis
    unfolding r using e by simp
qed


section \<open>Properties of the comparison\<close>

lemma is_PStr_iff: "is_PStr v \<longleftrightarrow> (\<exists>s. v = PStr s)"
  by (cases v) simp_all

lemma is_PInt_iff: "is_PInt v \<longleftrightarrow> (\<exists>i. v = PInt i)"
  by (cases v) simp_all

lemma has_len_iff: "has_len v \<longleftrightarrow> (\<exists>n. py_len v = Inr n)"
  by (cases v) simp_all

lemma typed_content: "fields_typed d \<Longrightarrow> \<exists>c. dict_get d ''content'' (PStr []) = PStr c"
  by (auto simp: fields_typed_def absent_or_def dict_get_def is_PStr_iff split: option.splits)

lemma typed_page_count: "fields_typed d \<Longrightarrow> \<exists>p. dict_get d ''page_count'' (PInt 0) = PInt p"
  by (auto simp: fields_typed_def absent_or_def dict_get_def is_PInt_iff split: option.splits)

lemma typed_tables: "fields_typed d \<Longrightarrow> \<exists>n. py_len (dict_get d ''tables'' (PList [])) = Inr n"
  by (auto simp: fields_typed_def absent_or_def dict_get_def has_len_iff split: option.splits)

lemma bind_Inr: "bind_result (Inr x) f = f x"
  by (simp add: bind_result_def)

lemma summary_of_structure:
  "generate_comparison_summary render score added removed
     [''page_count_diff'' \<mapsto> PInt pd, ''table_count_diff'' \<mapsto> PInt td,
      ''doc1_pages'' \<mapsto> v1, ''doc2_pages'' \<mapsto> v2, ''doc1_tables'' \<mapsto> v3, ''doc2_tables'' \<mapsto> v4]
   = (if counts_render added removed pd td
      then Inr (join_str '' '' (summary_sentences render score added removed pd td))
      else Inl ValueError)"
proof -
  let ?sd = "[''page_count_diff'' \<mapsto> PInt pd, ''table_count_diff'' \<mapsto> PInt td,
      ''doc1_pages'' \<mapsto> v1, ''doc2_pages'' \<mapsto> v2, ''doc1_tables'' \<mapsto> v3, ''doc2_tables'' \<mapsto> v4]"
  have a: "dict_get ?sd ''page_count_diff'' (PInt 0) = PInt pd"
    by (simp add: dict_get_def)
  have b: "dict_get ?sd ''table_count_diff'' (PInt 0) = PInt td"
    by (simp add: dict_get_def)
  show ?thesis
    by (rule summary_of_ints [OF a b])
qed

lemma compare_body_typed:
  assumes c1: "dict_get d1 ''content'' (PStr []) = PStr c1"
    and c2: "dict_get d2 ''content'' (PStr []) = PStr c2"
    and p1: "dict_get d1 ''page_count'' (PInt 0) = PInt p1"
    and p2: "dict_get d2 ''page_count'' (PInt 0) = PInt p2"
    and n1: "py_len (dict_get d1 ''tables'' (PList [])) = Inr n1"
    and n2: "py_len (dict_get d2 ''tables'' (PList [])) = Inr n2"
    and sc: "calculate_text_similarity (PStr c1) (PStr c2) = Inr sc"
    and s1: "split_into_sentences (PStr c1) = Inr s1"
    and s2: "split_into_sentences (PStr c2) = Inr s2"
  shows "compare_body list_of render d1 d2 =
     (if counts_render (int (length (list_of (set s2 - set s1))))
           (int (length (list_of (set s1 - set s2)))) (p2 - p1) (n2 - n1)
      then Inr \<lparr> document1 =
             \<lparr> filename = dict_get d1 ''filename'' (PStr ''Document 1''),
               page_count = PInt p1, table_count = n1, content_length = int (length c1) \<rparr>,
           document2 =
             \<lparr> filename = dict_get d2 ''filename'' (PStr ''Document 2''),
               page_count = PInt p2, table_count = n2, content_length = int (length c2) \<rparr>,
           similarity_score = sc,
           differences =
             \<lparr> added_content = take 10 (list_of (set s2 - set s1)),
               removed_content = take 10 (list_of (set s1 - set s2)),
               common_content_count = int (length (list_of (set s1 \<inter> set s2))),
               total_added = int (length (list_of (set s2 - set s1))),
               total_removed = int (length (list_of (set s1 - set s2))) \<rparr>,
           structure_comparison =
             [''page_count_diff'' \<mapsto> PInt (p2 - p1), ''table_count_diff'' \<mapsto> PInt (n2 - n1),
              ''doc1_pages'' \<mapsto> PInt p1, ''doc2_pages'' \<mapsto> PInt p2,
              ''doc1_tables'' \<mapsto> PInt n1, ''doc2_tables'' \<mapsto> PInt n2],
           summary = join_str '' '' (summary_sentences render sc
                       (int (length (list_of (set s2 - set s1))))
                       (int (length (list_of (set s1 - set s2)))) (p2 - p1) (n2 - n1)) \<rparr>
      else Inl ValueError)"
  unfolding compare_body_def Let_def c1 c2 p1 p2 n1 n2 sc s1 s2 bind_Inr py_sub.simps
    py_len.simps summary_of_structure bind_if ..

lemma typed_values:
  assumes "fields_typed d"
  obtains c p n ss where "dict_get d ''content'' (PStr []) = PStr c"
    and "dict_get d ''page_count'' (PInt 0) = PInt p"
    and "py_len (dict_get d ''tables'' (PList [])) = Inr n"
    and "split_into_sentences (PStr c) = Inr ss"
    and "sentences_of d = set ss" and "pages_of d = p" and "tables_of d = n"
proof -
  from assms obtain c where c: "dict_get d ''content'' (PStr []) = PStr c"
    using typed_content by blast
  from assms obtain p where p: "dict_get d ''page_count'' (PInt 0) = PInt p"
    using typed_page_count by blast
  from assms obtain n where n: "py_len (dict_get d ''tables'' (PList [])) = Inr n"
    using typed_tables by blast
  obtain ss where ss: "split_into_sentences (PStr c) = Inr ss"
    using sentences_of_string by blast
  have "sentences_of d = set ss" and "pages_of d = p" and "tables_of d = n"
    unfolding sentences_of_def pages_of_def tables_of_def c p n ss by simp_all
  with c p n ss show thesis
    by (rule that)
qed

lemma counts_render_nonneg:
  "0 \<le> a \<Longrightarrow> 0 \<le> r \<Longrightarrow>
   counts_render a r pd td
     \<longleftrightarrow> within_str_limit a \<and> within_str_limit r \<and> within_str_limit pd \<and> within_str_limit td"
  using within_zero by (cases "a = 0"; cases "r = 0") (auto simp: counts_render_def)

lemma compare_documents_typed:
  assumes "fields_typed d1" and "fields_typed d2"
  obtains c1 c2 p1 p2 n1 n2 sc s1 s2 where
    "dict_get d1 ''content'' (PStr []) = PStr c1" and "dict_get d2 ''content'' (PStr []) = PStr c2"
    and "dict_get d1 ''page_count'' (PInt 0) = PInt p1" and "dict_get d2 ''page_count'' (PInt 0) = PInt p2"
    and "py_len (dict_get d1 ''tables'' (PList [])) = Inr n1"
    and "py_len (dict_get d2 ''tables'' (PList [])) = Inr n2"
    and "calculate_text_similarity (PStr c1) (PStr c2) = Inr sc"
    and "split_into_sentences (PStr c1) = Inr s1" and "split_into_sentences (PStr c2) = Inr s2"
    and "compare_body list_of render d1 d2 =
     (if report_renders list_of d1 d2
      then Inr \<lparr> document1 =
             \<lparr> filename = dict_get d1 ''filename'' (PStr ''Document 1''),
               page_count = PInt p1, table_count = n1, content_length = int (length c1) \<rparr>,
           document2 =
             \<lparr> filename = dict_get d2 ''filename'' (PStr ''Document 2''),
               page_count = PInt p2, table_count = n2, content_length = int (length c2) \<rparr>,
           similarity_score = sc,
           differences =
             \<lparr> added_content = take 10 (list_of (set s2 - set s1)),
               removed_content = take 10 (list_of (set s1 - set s2)),
               common_content_count = int (length (list_of (set s1 \<inter> set s2))),
               total_added = int (length (list_of (set s2 - set s1))),
               total_removed = int (length (list_of (set s1 - set s2))) \<rparr>,
           structure_comparison =
             [''page_count_diff'' \<mapsto> PInt (p2 - p1), ''table_count_diff'' \<mapsto> PInt (n2 - n1),
              ''doc1_pages'' \<mapsto> PInt p1, ''doc2_pages'' \<mapsto> PInt p2,
              ''doc1_tables'' \<mapsto> PInt n1, ''doc2_tables'' \<mapsto> PInt n2],
           summary = join_str '' '' (summary_sentences render sc
                       (int (length (list_of (set s2 - set s1))))
                       (int (length (list_of (set s1 - set s2)))) (p2 - p1) (n2 - n1)) \<rparr>
      else Inl ValueError)"
proof -
  from assms(1) obtain c1 p1 n1 s1 where d1: "dict_get d1 ''content'' (PStr []) = PStr c1"
      "dict_get d1 ''page_count'' (PInt 0) = PInt p1"
      "py_len (dict_get d1 ''tables'' (PList [])) = Inr n1"
      "split_into_sentences (PStr c1) = Inr s1"
    and v1: "sentences_of d1 = set s1" "pages_of d1 = p1" "tables_of d1 = n1"
    by (rule typed_values)
  from assms(2) obtain c2 p2 n2 s2 where d2: "dict_get d2 ''content'' (PStr []) = PStr c2"
      "dict_get d2 ''page_count'' (PInt 0) = PInt p2"
      "py_len (dict_get d2 ''tables'' (PList [])) = Inr n2"
      "split_into_sentences (PStr c2) = Inr s2"
    and v2: "sentences_of d2 = set s2" "pages_of d2 = p2" "tables_of d2 = n2"
    by (rule typed_values)
  obtain sc where sc: "calculate_text_similarity (PStr c1) (PStr c2) = Inr sc"
    using similarity_of_strings by blast
  have renders: "report_renders list_of d1 d2
      \<longleftrightarrow> counts_render (int (length (list_of (set s2 - set s1))))
           (int (length (list_of (set s1 - set s2)))) (p2 - p1) (n2 - n1)"
    unfolding report_renders_def v1 v2 by (simp add: counts_render_nonneg)
  note body = compare_body_typed [OF d1(1) d2(1) d1(2) d2(2) d1(3) d2(3) sc d1(4) d2(4),
      of list_of render, folded renders]
  show thesis
    by (rule that [OF d1(1) d2(1) d1(2) d2(2) d1(3) d2(3) sc d1(4) d2(4) body])
qed

lemma compare_body_fails:
  assumes "fields_typed d1" and "fields_typed d2" and "\<not> report_renders list_of d1 d2"
  shows "compare_body list_of render d1 d2 = Inl ValueError"
proof -
  from assms(1,2) obtain x where
    "compare_body list_of render d1 d2 = (if report_renders list_of d1 d2 then x else Inl ValueError)"
    by (rule compare_documents_typed [of d1 d2 list_of render])
  with assms(3) show ?thesis
    by simp
qed

lemma bind_result_InrE:
  assumes "bind_result m f = Inr y"
  obtains x where "m = Inr x" and "f x = Inr y"
  using assms by (cases m) (simp_all add: bind_result_def)

lemma split_Inr_is_str: "split_into_sentences v = Inr ss \<Longrightarrow> is_PStr v"
  by (cases v) simp_all

lemma py_sub_Inr: "py_sub a b = Inr v \<Longrightarrow> is_PInt a \<and> is_PInt b"
  by (cases a; cases b) simp_all

lemma py_len_Inr: "py_len v = Inr n \<Longrightarrow> has_len v"
  by (cases v) simp_all

lemma absent_or_default: "P (dict_get d k dflt) \<Longrightarrow> absent_or P (d k)"
  by (simp add: dict_get_def absent_or_def split: option.splits)

lemma compare_body_Inr_typed:
  assumes "compare_body list_of render d1 d2 = Inr r"
  shows "fields_typed d1 \<and> fields_typed d2 \<and> report_renders list_of d1 d2"
proof -
  from assms obtain ss1 ss2 v n2 n1 where
    "split_into_sentences (dict_get d1 ''content'' (PStr [])) = Inr ss1"
    and "split_into_sentences (dict_get d2 ''content'' (PStr [])) = Inr ss2"
    and "py_sub (dict_get d2 ''page_count'' (PInt 0)) (dict_get d1 ''page_count'' (PInt 0)) = Inr v"
    and "py_len (dict_get d2 ''tables'' (PList [])) = Inr n2"
    and "py_len (dict_get d1 ''tables'' (PList [])) = Inr n1"
    unfolding compare_body_def Let_def by (elim bind_result_InrE) blast
  then have "is_PStr (dict_get d1 ''content'' (PStr []))"
    and "is_PStr (dict_get d2 ''content'' (PStr []))"
    and "is_PInt (dict_get d1 ''page_count'' (PInt 0))"
    and "is_PInt (dict_get d2 ''page_count'' (PInt 0))"
    and "has_len (dict_get d1 ''tables'' (PList []))"
    and "has_len (dict_get d2 ''tables'' (PList []))"
    by (auto dest: split_Inr_is_str py_sub_Inr py_len_Inr)
  then have "fields_typed d1 \<and> fields_typed d2"
    unfolding fields_typed_def by (intro conjI absent_or_default)
  then have typed: "fields_typed d1" "fields_typed d2"
    by simp_all
  have "report_renders list_of d1 d2"
  proof (rule ccontr)
    assume "\<not> report_renders list_of d1 d2"
    with typed have "compare_body list_of render d1 d2 = Inl ValueError"
      by (rule compare_body_fails)
    with assms show False
      by simp
  qed
  with typed show ?thesis
    by simp
qed

lemma compare_documents_Inr:
  "compare_documents list_of render d1 d2 = Inr r \<longleftrightarrow> compare_body list_of render d1 d2 = Inr r"
  by (cases "compare_body list_of render d1 d2") (simp_all add: compare_documents_def)

lemma compare_documents_Inl:
  "compare_documents list_of render d1 d2 = Inl (CompareFailed e)
     \<longleftrightarrow> compare_body list_of render d1 d2 = Inl e"
  by (cases "compare_body list_of render d1 d2") (simp_all add: compare_documents_def)

lemma length_list_of: "lists_sets list_of \<Longrightarrow> finite S \<Longrightarrow> length (list_of S) = card S"
  by (metis distinct_card lists_sets_def)

lemma lists_sets_sorted: "lists_sets sorted_list_of_set"
  by (simp add: lists_sets_def)


lemma compare_documents_returns:
  assumes "fields_typed d1" and "fields_typed d2" and "report_renders list_of d1 d2"
  obtains c1 c2 p1 p2 n1 n2 sc s1 s2 where
    "dict_get d1 ''content'' (PStr []) = PStr c1" and "dict_get d2 ''content'' (PStr []) = PStr c2"
    and "dict_get d1 ''page_count'' (PInt 0) = PInt p1" and "dict_get d2 ''page_count'' (PInt 0) = PInt p2"
    and "py_len (dict_get d1 ''tables'' (PList [])) = Inr n1"
    and "py_len (dict_get d2 ''tables'' (PList [])) = Inr n2"
    and "calculate_text_similarity (PStr c1) (PStr c2) = Inr sc"
    and "split_into_sentences (PStr c1) = Inr s1" and "split_into_sentences (PStr c2) = Inr s2"
    and "compare_documents list_of render d1 d2 = Inr \<lparr> document1 =
             \<lparr> filename = dict_get d1 ''filename'' (PStr ''Document 1''),
               page_count = PInt p1, table_count = n1, content_length = int (length c1) \<rparr>,
           document2 =
             \<lparr> filename = dict_get d2 ''filename'' (PStr ''Document 2''),
               page_count = PInt p2, table_count = n2, content_length = int (length c2) \<rparr>,
           similarity_score = sc,
           differences =
             \<lparr> added_content = take 10 (list_of (set s2 - set s1)),
               removed_content = take 10 (list_of (set s1 - set s2)),
               common_content_count = int (length (list_of (set s1 \<inter> set s2))),
               total_added = int (length (list_of (set s2 - set s1))),
               total_removed = int (length (list_of (set s1 - set s2))) \<rparr>,
           structure_comparison =
             [''page_count_diff'' \<mapsto> PInt (p2 - p1), ''table_count_diff'' \<mapsto> PInt (n2 - n1),
              ''doc1_pages'' \<mapsto> PInt p1, ''doc2_pages'' \<mapsto> PInt p2,
              ''doc1_tables'' \<mapsto> PInt n1, ''doc2_tables'' \<mapsto> PInt n2],
           summary = join_str '' '' (summary_sentences render sc
                       (int (length (list_of (set s2 - set s1))))
                       (int (length (list_of (set s1 - set s2)))) (p2 - p1) (n2 - n1)) \<rparr>"
proof -
  from assms(1,2) obtain c1 c2 p1 p2 n1 n2 sc s1 s2 where
    facts: "dict_get d1 ''content'' (PStr []) = PStr c1" "dict_get d2 ''content'' (PStr []) = PStr c2"
      "dict_get d1 ''page_count'' (PInt 0) = PInt p1" "dict_get d2 ''page_count'' (PInt 0) = PInt p2"
      "py_len (dict_get d1 ''tables'' (PList [])) = Inr n1"
      "py_len (dict_get d2 ''tables'' (PList [])) = Inr n2"
      "calculate_text_similarity (PStr c1) (PStr c2) = Inr sc"
      "split_into_sentences (PStr c1) = Inr s1" "split_into_sentences (PStr c2) = Inr s2"
    and body: "compare_body list_of render d1 d2 =
     (if report_renders list_of d1 d2
      then Inr \<lparr> document1 =
             \<lparr> filename = dict_get d1 ''filename'' (PStr ''Document 1''),
               page_count = PInt p1, table_count = n1, content_length = int (length c1) \<rparr>,
           document2 =
             \<lparr> filename = dict_get d2 ''filename'' (PStr ''Document 2''),
               page_count = PInt p2, table_count = n2, content_length = int (length c2) \<rparr>,
           similarity_score = sc,
           differences =
             \<lparr> added_content = take 10 (list_of (set s2 - set s1)),
               removed_content = take 10 (list_of (set s1 - set s2)),
               common_content_count = int (length (list_of (set s1 \<inter> set s2))),
               total_added = int (length (list_of (set s2 - set s1))),
               total_removed = int (length (list_of (set s1 - set s2))) \<rparr>,
           structure_comparison =
             [''page_count_diff'' \<mapsto> PInt (p2 - p1), ''table_count_diff'' \<mapsto> PInt (n2 - n1),
              ''doc1_pages'' \<mapsto> PInt p1, ''doc2_pages'' \<mapsto> PInt p2,
              ''doc1_tables'' \<mapsto> PInt n1, ''doc2_tables'' \<mapsto> PInt n2],
           summary = join_str '' '' (summary_sentences render sc
                       (int (length (list_of (set s2 - set s1))))
                       (int (length (list_of (set s1 - set s2)))) (p2 - p1) (n2 - n1)) \<rparr>
      else Inl ValueError)"
    by (rule compare_documents_typed [of d1 d2 list_of render])
  have "compare_documents list_of render d1 d2 = Inr \<lparr> document1 =
             \<lparr> filename = dict_get d1 ''filename'' (PStr ''Document 1''),
               page_count = PInt p1, table_count = n1, content_length = int (length c1) \<rparr>,
           document2 =
             \<lparr> filename = dict_get d2 ''filename'' (PStr ''Document 2''),
               page_count = PInt p2, table_count = n2, content_length = int (length c2) \<rparr>,
           similarity_score = sc,
           differences =
             \<lparr> added_content = take 10 (list_of (set s2 - set s1)),
               removed_content = take 10 (list_of (set s1 - set s2)),
               common_content_count = int (length (list_of (set s1 \<inter> set s2))),
               total_added = int (length (list_of (set s2 - set s1))),
               total_removed = int (length (list_of (set s1 - set s2))) \<rparr>,
           structure_comparison =
             [''page_count_diff'' \<mapsto> PInt (p2 - p1), ''table_count_diff'' \<mapsto> PInt (n2 - n1),
              ''doc1_pages'' \<mapsto> PInt p1, ''doc2_pages'' \<mapsto> PInt p2,
              ''doc1_tables'' \<mapsto> PInt n1, ''doc2_tables'' \<mapsto> PInt n2],
           summary = join_str '' '' (summary_sentences render sc
                       (int (length (list_of (set s2 - set s1))))
                       (int (length (list_of (set s1 - set s2)))) (p2 - p1) (n2 - n1)) \<rparr>"
    unfolding compare_documents_Inr body using assms(3) by simp
  with facts show thesis
    by (rule that)
qed

lemma compare_documents_InrE:
  assumes "compare_documents list_of render d1 d2 = Inr r"
  obtains c1 c2 p1 p2 n1 n2 sc s1 s2 where
    "dict_get d1 ''content'' (PStr []) = PStr c1" and "dict_get d2 ''content'' (PStr []) = PStr c2"
    and "dict_get d1 ''page_count'' (PInt 0) = PInt p1" and "dict_get d2 ''page_count'' (PInt 0) = PInt p2"
    and "py_len (dict_get d1 ''tables'' (PList [])) = Inr n1"
    and "py_len (dict_get d2 ''tables'' (PList [])) = Inr n2"
    and "calculate_text_similarity (PStr c1) (PStr c2) = Inr sc"
    and "split_into_sentences (PStr c1) = Inr s1" and "split_into_sentences (PStr c2) = Inr s2"
    and "r = \<lparr> document1 =
             \<lparr> filename = dict_get d1 ''filename'' (PStr ''Document 1''),
               page_count = PInt p1, table_count = n1, content_length = int (length c1) \<rparr>,
           document2 =
             \<lparr> filename = dict_get d2 ''filename'' (PStr ''Document 2''),
               page_count = PInt p2, table_count = n2, content_length = int (length c2) \<rparr>,
           similarity_score = sc,
           differences =
             \<lparr> added_content = take 10 (list_of (set s2 - set s1)),
               removed_content = take 10 (list_of (set s1 - set s2)),
               common_content_count = int (length (list_of (set s1 \<inter> set s2))),
               total_added = int (length (list_of (set s2 - set s1))),
               total_removed = int (length (list_of (set s1 - set s2))) \<rparr>,
           structure_comparison =
             [''page_count_diff'' \<mapsto> PInt (p2 - p1), ''table_count_diff'' \<mapsto> PInt (n2 - n1),
              ''doc1_pages'' \<mapsto> PInt p1, ''doc2_pages'' \<mapsto> PInt p2,
              ''doc1_tables'' \<mapsto> PInt n1, ''doc2_tables'' \<mapsto> PInt n2],
           summary = join_str '' '' (summary_sentences render sc
                       (int (length (list_of (set s2 - set s1))))
                       (int (length (list_of (set s1 - set s2)))) (p2 - p1) (n2 - n1)) \<rparr>"
proof -
  from assms have "compare_body list_of render d1 d2 = Inr r"
    by (simp only: compare_documents_Inr)
  then have "fields_typed d1" and "fields_typed d2" and "report_renders list_of d1 d2"
    using compare_body_Inr_typed [of list_of render d1 d2 r] by simp_all
  then obtain c1 c2 p1 p2 n1 n2 sc s1 s2 where
    facts: "dict_get d1 ''content'' (PStr []) = PStr c1" "dict_get d2 ''content'' (PStr []) = PStr c2"
      "dict_get d1 ''page_count'' (PInt 0) = PInt p1" "dict_get d2 ''page_count'' (PInt 0) = PInt p2"
      "py_len (dict_get d1 ''tables'' (PList [])) = Inr n1"
      "py_len (dict_get d2 ''tables'' (PList [])) = Inr n2"
      "calculate_text_similarity (PStr c1) (PStr c2) = Inr sc"
      "split_into_sentences (PStr c1) = Inr s1" "split_into_sentences (PStr c2) = Inr s2"
    and result: "compare_documents list_of render d1 d2 = Inr \<lparr> document1 =
             \<lparr> filename = dict_get d1 ''filename'' (PStr ''Document 1''),
               page_count = PInt p1, table_count = n1, content_length = int (length c1) \<rparr>,
           document2 =
             \<lparr> filename = dict_get d2 ''filename'' (PStr ''Document 2''),
               page_count = PInt p2, table_count = n2, content_length = int (length c2) \<rparr>,
           similarity_score = sc,
           differences =
             \<lparr> added_content = take 10 (list_of (set s2 - set s1)),
               removed_content = take 10 (list_of (set s1 - set s2)),
               common_content_count = int (length (list_of (set s1 \<inter> set s2))),
               total_added = int (length (list_of (set s2 - set s1))),
               total_removed = int (length (list_of (set s1 - set s2))) \<rparr>,
           structure_comparison =
             [''page_count_diff'' \<mapsto> PInt (p2 - p1), ''table_count_diff'' \<mapsto> PInt (n2 - n1),
              ''doc1_pages'' \<mapsto> PInt p1, ''doc2_pages'' \<mapsto> PInt p2,
              ''doc1_tables'' \<mapsto> PInt n1, ''doc2_tables'' \<mapsto> PInt n2],
           summary = join_str '' '' (summary_sentences render sc
                       (int (length (list_of (set s2 - set s1))))
                       (int (length (list_of (set s1 - set s2)))) (p2 - p1) (n2 - n1)) \<rparr>"
    by (rule compare_documents_returns [of d1 d2 list_of render])
  from assms have "r = \<lparr> document1 =
             \<lparr> filename = dict_get d1 ''filename'' (PStr ''Document 1''),
               page_count = PInt p1, table_count = n1, content_length = int (length c1) \<rparr>,
           document2 =
             \<lparr> filename = dict_get d2 ''filename'' (PStr ''Document 2''),
               page_count = PInt p2, table_count = n2, content_length = int (length c2) \<rparr>,
           similarity_score = sc,
           differences =
             \<lparr> added_content = take 10 (list_of (set s2 - set s1)),
               removed_content = take 10 (list_of (set s1 - set s2)),
               common_content_count = int (length (list_of (set s1 \<inter> set s2))),
               total_added = int (length (list_of (set s2 - set s1))),
               total_removed = int (length (list_of (set s1 - set s2))) \<rparr>,
           structure_comparison =
             [''page_count_diff'' \<mapsto> PInt (p2 - p1), ''table_count_diff'' \<mapsto> PInt (n2 - n1),
              ''doc1_pages'' \<mapsto> PInt p1, ''doc2_pages'' \<mapsto> PInt p2,
              ''doc1_tables'' \<mapsto> PInt n1, ''doc2_tables'' \<mapsto> PInt n2],
           summary = join_str '' '' (summary_sentences render sc
                       (int (length (list_of (set s2 - set s1))))
                       (int (length (list_of (set s1 - set s2)))) (p2 - p1) (n2 - n1)) \<rparr>"
    unfolding result by simp
  with facts show thesis
    by (rule that)
qed

lemma huge_page_count_fails:
  "compare_documents list_of render [''page_count'' \<mapsto> PInt (10 ^ int_max_str_digits)] Map.empty
     = Inl (CompareFailed ValueError)"
proof -
  let ?d1 = "[''page_count'' \<mapsto> PInt (10 ^ int_max_str_digits)]"
  have t1: "fields_typed ?d1" and t2: "fields_typed Map.empty"
    by (simp_all add: fields_typed_def absent_or_def)
  have "pages_of Map.empty - pages_of ?d1 = - (10 ^ int_max_str_digits)"
    by (simp add: pages_of_def dict_get_def)
  moreover have "\<not> within_str_limit (- (10 ^ int_max_str_digits))"
    by (simp add: within_str_limit_iff)
  ultimately have "\<not> report_renders list_of ?d1 Map.empty"
    by (simp add: report_renders_def)
  with t1 t2 have "compare_body list_of render ?d1 Map.empty = Inl ValueError"
    by (rule compare_body_fails)
  then show ?thesis
    by (simp only: compare_documents_Inl)
qed

text \<open>
  C2. When \<^verbatim>\<open>list(s)\<close> lists each element of a set once, every report that
  \<^verbatim>\<open>compare_documents\<close> returns has \<^verbatim>\<open>total_added\<close> plus \<^verbatim>\<open>common_content_count\<close> equal to
  the number of distinct sentences of the second content, \<^verbatim>\<open>total_removed\<close> plus
  \<^verbatim>\<open>common_content_count\<close> equal to the number of distinct sentences of the first content,
  the two totals equal to the sizes of the full added and removed sets, and displayed
  lists that are the first ten elements of those sets at most. A report is returned
  whenever the fields of both analysis results are missing or well typed and the summary
  can write its numbers.
\<close>

theorem C2_totals_count_distinct_sentences:
  assumes "lists_sets list_of"
  shows "(\<forall>r. compare_documents list_of render d1 d2 = Inr r \<longrightarrow>
           (\<exists>s1 s2. split_into_sentences (dict_get d1 ''content'' (PStr [])) = Inr s1
              \<and> split_into_sentences (dict_get d2 ''content'' (PStr [])) = Inr s2
              \<and> total_added (differences r) + common_content_count (differences r) = int (card (set s2))
              \<and> total_removed (differences r) + common_content_count (differences r) = int (card (set s1))
              \<and> total_added (differences r) = int (card (set s2 - set s1))
              \<and> total_removed (differences r) = int (card (set s1 - set s2))
              \<and> added_content (differences r) = take 10 (list_of (set s2 - set s1))
              \<and> removed_content (differences r) = take 10 (list_of (set s1 - set s2))
              \<and> length (added_content (differences r)) \<le> 10
              \<and> length (removed_content (differences r)) \<le> 10))
       \<and> (fields_typed d1 \<and> fields_typed d2 \<and> report_renders list_of d1 d2
            \<longrightarrow> (\<exists>r. compare_documents list_of render d1 d2 = Inr r))"
proof (intro conjI allI impI)
  fix r
  assume "compare_documents list_of render d1 d2 = Inr r"
  then obtain c1 c2 s1 s2 where
    c: "dict_get d1 ''content'' (PStr []) = PStr c1" "dict_get d2 ''content'' (PStr []) = PStr c2"
    and s: "split_into_sentences (PStr c1) = Inr s1" "split_into_sentences (PStr c2) = Inr s2"
    and diffs: "differences r =
             \<lparr> added_content = take 10 (list_of (set s2 - set s1)),
               removed_content = take 10 (list_of (set s1 - set s2)),
               common_content_count = int (length (list_of (set s1 \<inter> set s2))),
               total_added = int (length (list_of (set s2 - set s1))),
               total_removed = int (length (list_of (set s1 - set s2))) \<rparr>"
    by (rule compare_documents_InrE) simp
  have added: "length (list_of (set s2 - set s1)) = card (set s2 - set s1)"
    and removed: "length (list_of (set s1 - set s2)) = card (set s1 - set s2)"
    and common: "length (list_of (set s1 \<inter> set s2)) = card (set s1 \<inter> set s2)"
    using assms by (simp_all add: length_list_of)
  have "card (set s2) = card (set s2 \<inter> set s1) + card (set s2 - set s1)"
    by (rule card_Int_Diff) simp
  then have two: "card (set s2 - set s1) + card (set s1 \<inter> set s2) = card (set s2)"
    by (simp add: Int_commute)
  have "card (set s1) = card (set s1 \<inter> set s2) + card (set s1 - set s2)"
    by (rule card_Int_Diff) simp
  then have one: "card (set s1 - set s2) + card (set s1 \<inter> set s2) = card (set s1)"
    by simp
  have sums: "total_added (differences r) + common_content_count (differences r) = int (card (set s2))"
    "total_removed (differences r) + common_content_count (differences r) = int (card (set s1))"
    unfolding diffs using one two by (simp_all add: added removed common)
  have totals: "total_added (differences r) = int (card (set s2 - set s1))"
    "total_removed (differences r) = int (card (set s1 - set s2))"
    unfolding diffs by (simp_all add: added removed)
  have shown: "added_content (differences r) = take 10 (list_of (set s2 - set s1))"
    "removed_content (differences r) = take 10 (list_of (set s1 - set s2))"
    "length (added_content (differences r)) \<le> 10"
    "length (removed_content (differences r)) \<le> 10"
    unfolding diffs by simp_all
  show "\<exists>s1 s2. split_into_sentences (dict_get d1 ''content'' (PStr [])) = Inr s1
              \<and> split_into_sentences (dict_get d2 ''content'' (PStr [])) = Inr s2
              \<and> total_added (differences r) + common_content_count (differences r) = int (card (set s2))
              \<and> total_removed (differences r) + common_content_count (differences r) = int (card (set s1))
              \<and> total_added (differences r) = int (card (set s2 - set s1))
              \<and> total_removed (differences r) = int (card (set s1 - set s2))
              \<and> added_content (differences r) = take 10 (list_of (set s2 - set s1))
              \<and> removed_content (differences r) = take 10 (list_of (set s1 - set s2))
              \<and> length (added_content (differences r)) \<le> 10
              \<and> length (removed_content (differences r)) \<le> 10"
    unfolding c by (intro exI [of _ s1] exI [of _ s2] conjI s sums totals shown)
next
  assume "fields_typed d1 \<and> fields_typed d2 \<and> report_renders list_of d1 d2"
  then have "fields_typed d1" and "fields_typed d2" and "report_renders list_of d1 d2"
    by simp_all
  then obtain r where "compare_documents list_of render d1 d2 = Inr r"
    by (rule compare_documents_returns [of d1 d2 list_of render])
  then show "\<exists>r. compare_documents list_of render d1 d2 = Inr r" ..
qed

theorem C2_totals_witness:
  "\<exists>r. compare_documents sorted_list_of_set exact_percent
          [''content'' \<mapsto> PStr ''Old. Same.'']
          [''content'' \<mapsto> PStr ''Same. a. b. c. d. e. f. g. h. i. j. k. l.''] = Inr r
     \<and> total_added (differences r) = 12 \<and> total_removed (differences r) = 1
     \<and> common_content_count (differences r) = 1
     \<and> length (added_content (differences r)) = 10"
proof -
  let ?d1 = "[''content'' \<mapsto> PStr ''Old. Same.'']"
  let ?d2 = "[''content'' \<mapsto> PStr ''Same. a. b. c. d. e. f. g. h. i. j. k. l.'']"
  let ?s1 = "[''Old'', ''Same'']"
  let ?s2 = "[''Same'', ''a'', ''b'', ''c'', ''d'', ''e'', ''f'', ''g'', ''h'', ''i'', ''j'', ''k'', ''l'']"
  have t1: "fields_typed ?d1" and t2: "fields_typed ?d2"
    by (simp_all add: fields_typed_def absent_or_def)
  have c1: "dict_get ?d1 ''content'' (PStr []) = PStr ''Old. Same.''"
    and c2: "dict_get ?d2 ''content'' (PStr []) = PStr ''Same. a. b. c. d. e. f. g. h. i. j. k. l.''"
    by (simp_all add: dict_get_def)
  have s1: "split_into_sentences (PStr ''Old. Same.'') = Inr ?s1"
    by code_simp
  have s2: "split_into_sentences (PStr ''Same. a. b. c. d. e. f. g. h. i. j. k. l.'') = Inr ?s2"
    by code_simp
  have k2: "card (set ?s2) = 13" and k1: "card (set ?s1) = 2"
    and a: "card (set ?s2 - set ?s1) = 12" and b: "card (set ?s1 - set ?s2) = 1"
    by code_simp+
  have l: "length (take 10 (sorted_list_of_set (set ?s2 - set ?s1))) = 10"
    by code_simp
  have la: "int (length (sorted_list_of_set (set ?s2 - set ?s1))) = 12"
    and lr: "int (length (sorted_list_of_set (set ?s1 - set ?s2))) = 1"
    by code_simp+
  have rr: "report_renders sorted_list_of_set ?d1 ?d2"
    unfolding report_renders_def sentences_of_def pages_of_def tables_of_def c1 c2 s1 s2 sum.case la lr
    by (simp add: dict_get_def within_small)
  note both = C2_totals_count_distinct_sentences [OF lists_sets_sorted, of exact_percent ?d1 ?d2]
  from both [THEN conjunct2, THEN mp, OF conjI [OF t1 conjI [OF t2 rr]]]
  obtain r where r: "compare_documents sorted_list_of_set exact_percent ?d1 ?d2 = Inr r" ..
  note props = both [THEN conjunct1, THEN spec, THEN mp, OF r, unfolded c1 c2 s1 s2 sum.inject]
  show ?thesis
    by (insert props k1 k2 a b l, elim exE conjE, hypsubst, intro exI [of _ r] conjI r) simp_all
qed


text \<open>
  C6. For every pair of analysis results, with page counts of any sign, the
  \<^verbatim>\<open>structure_comparison\<close> of every report that \<^verbatim>\<open>compare_documents\<close> returns holds
  \<^verbatim>\<open>page_count_diff\<close>, the second page count minus the first, \<^verbatim>\<open>table_count_diff\<close>, the
  second number of tables minus the first, and the four raw counts. A report is returned
  whenever the fields of both analysis results are missing or well typed and the summary
  can write its numbers.
\<close>

theorem C6_structure_deltas:
  "(\<forall>r. compare_documents list_of render d1 d2 = Inr r \<longrightarrow>
      (\<exists>p1 p2 n1 n2. dict_get d1 ''page_count'' (PInt 0) = PInt p1
         \<and> dict_get d2 ''page_count'' (PInt 0) = PInt p2
         \<and> py_len (dict_get d1 ''tables'' (PList [])) = Inr n1
         \<and> py_len (dict_get d2 ''tables'' (PList [])) = Inr n2
         \<and> structure_comparison r =
             [''page_count_diff'' \<mapsto> PInt (p2 - p1), ''table_count_diff'' \<mapsto> PInt (n2 - n1),
              ''doc1_pages'' \<mapsto> PInt p1, ''doc2_pages'' \<mapsto> PInt p2,
              ''doc1_tables'' \<mapsto> PInt n1, ''doc2_tables'' \<mapsto> PInt n2]))
   \<and> (fields_typed d1 \<and> fields_typed d2 \<and> report_renders list_of d1 d2
        \<longrightarrow> (\<exists>r. compare_documents list_of render d1 d2 = Inr r))"
proof (intro conjI allI impI)
  fix r
  assume "compare_documents list_of render d1 d2 = Inr r"
  then obtain p1 p2 n1 n2 where
    p: "dict_get d1 ''page_count'' (PInt 0) = PInt p1" "dict_get d2 ''page_count'' (PInt 0) = PInt p2"
    and n: "py_len (dict_get d1 ''tables'' (PList [])) = Inr n1"
      "py_len (dict_get d2 ''tables'' (PList [])) = Inr n2"
    and st: "structure_comparison r =
         [''page_count_diff'' \<mapsto> PInt (p2 - p1), ''table_count_diff'' \<mapsto> PInt (n2 - n1),
          ''doc1_pages'' \<mapsto> PInt p1, ''doc2_pages'' \<mapsto> PInt p2,
          ''doc1_tables'' \<mapsto> PInt n1, ''doc2_tables'' \<mapsto> PInt n2]"
    by (rule compare_documents_InrE) simp
  show "\<exists>p1 p2 n1 n2. dict_get d1 ''page_count'' (PInt 0) = PInt p1
         \<and> dict_get d2 ''page_count'' (PInt 0) = PInt p2
         \<and> py_len (dict_get d1 ''tables'' (PList [])) = Inr n1
         \<and> py_len (dict_get d2 ''tables'' (PList [])) = Inr n2
         \<and> structure_comparison r =
             [''page_count_diff'' \<mapsto> PInt (p2 - p1), ''table_count_diff'' \<mapsto> PInt (n2 - n1),
              ''doc1_pages'' \<mapsto> PInt p1, ''doc2_pages'' \<mapsto> PInt p2,
              ''doc1_tables'' \<mapsto> PInt n1, ''doc2_tables'' \<mapsto> PInt n2]"
    by (intro exI [of _ p1] exI [of _ p2] exI [of _ n1] exI [of _ n2] conjI p n st)
next
  assume "fields_typed d1 \<and> fields_typed d2 \<and> report_renders list_of d1 d2"
  then have "fields_typed d1" and "fields_typed d2" and "report_renders list_of d1 d2"
    by simp_all
  then obtain r where "compare_documents list_of render d1 d2 = Inr r"
    by (rule compare_documents_returns [of d1 d2 list_of render])
  then show "\<exists>r. compare_documents list_of render d1 d2 = Inr r" ..
qed

theorem C6_structure_witness:
  "\<exists>r. compare_documents sorted_list_of_set exact_percent
          [''page_count'' \<mapsto> PInt 5, ''tables'' \<mapsto> PList [PDict [], PDict []]]
          [''page_count'' \<mapsto> PInt 2] = Inr r
     \<and> structure_comparison r ''page_count_diff'' = Some (PInt (- 3))
     \<and> structure_comparison r ''table_count_diff'' = Some (PInt (- 2))
     \<and> structure_comparison r ''doc1_pages'' = Some (PInt 5)
     \<and> structure_comparison r ''doc2_tables'' = Some (PInt 0)"
proof -
  let ?d1 = "[''page_count'' \<mapsto> PInt 5, ''tables'' \<mapsto> PList [PDict [], PDict []]]"
  let ?d2 = "[''page_count'' \<mapsto> PInt 2]"
  have t1: "fields_typed ?d1" and t2: "fields_typed ?d2"
    by (simp_all add: fields_typed_def absent_or_def)
  have p1: "dict_get ?d1 ''page_count'' (PInt 0) = PInt 5"
    and p2: "dict_get ?d2 ''page_count'' (PInt 0) = PInt 2"
    and n1: "py_len (dict_get ?d1 ''tables'' (PList [])) = Inr 2"
    and n2: "py_len (dict_get ?d2 ''tables'' (PList [])) = Inr 0"
    and c1: "dict_get ?d1 ''content'' (PStr []) = PStr []"
    and c2: "dict_get ?d2 ''content'' (PStr []) = PStr []"
    by (simp_all add: dict_get_def)
  have s: "split_into_sentences (PStr []) = Inr []"
    by code_simp
  have rr: "report_renders sorted_list_of_set ?d1 ?d2"
    unfolding report_renders_def sentences_of_def pages_of_def tables_of_def c1 c2 p1 p2 n1 n2 s
    by (simp add: within_small)
  note both = C6_structure_deltas [of sorted_list_of_set exact_percent ?d1 ?d2]
  from both [THEN conjunct2, THEN mp, OF conjI [OF t1 conjI [OF t2 rr]]]
  obtain r where r: "compare_documents sorted_list_of_set exact_percent ?d1 ?d2 = Inr r" ..
  note props = both [THEN conjunct1, THEN spec, THEN mp, OF r, unfolded p1 p2 n1 n2 pyval.inject sum.inject]
  show ?thesis
    by (insert props, elim exE conjE, hypsubst, intro exI [of _ r] conjI r) simp_all
qed

text \<open>
  C8. Every exception raised in the body of \<^verbatim>\<open>compare_documents\<close> is caught and raised again
  as the one generic failure that wraps it, and a report that the body completes is
  returned as it is: a call either returns a complete report or raises that failure,
  never part of a report. In the model the body raises exactly when a field it computes
  with holds a value of the wrong type or the summary cannot write one of its numbers,
  and in the second case the failure wraps a \<^verbatim>\<open>ValueError\<close>.
\<close>

theorem C8_failures_are_wrapped:
  "(\<forall>e. compare_body list_of render d1 d2 = Inl e
        \<longrightarrow> compare_documents list_of render d1 d2 = Inl (CompareFailed e))
   \<and> (\<forall>r. compare_body list_of render d1 d2 = Inr r
        \<longrightarrow> compare_documents list_of render d1 d2 = Inr r)
   \<and> ((\<exists>r. compare_documents list_of render d1 d2 = Inr r)
        \<or> (\<exists>e. compare_documents list_of render d1 d2 = Inl (CompareFailed e)))
   \<and> ((\<exists>e. compare_documents list_of render d1 d2 = Inl (CompareFailed e))
        \<longleftrightarrow> \<not> (fields_typed d1 \<and> fields_typed d2 \<and> report_renders list_of d1 d2))
   \<and> (fields_typed d1 \<and> fields_typed d2 \<and> \<not> report_renders list_of d1 d2
        \<longrightarrow> compare_documents list_of render d1 d2 = Inl (CompareFailed ValueError))"
proof -
  have wrap: "compare_documents list_of render d1 d2 = Inl (CompareFailed e)"
    if "compare_body list_of render d1 d2 = Inl e" for e
    using that by (simp only: compare_documents_Inl)
  have pass: "compare_documents list_of render d1 d2 = Inr r"
    if "compare_body list_of render d1 d2 = Inr r" for r
    using that by (simp only: compare_documents_Inr)
  have either: "(\<exists>r. compare_documents list_of render d1 d2 = Inr r)
        \<or> (\<exists>e. compare_documents list_of render d1 d2 = Inl (CompareFailed e))"
  proof (cases "compare_body list_of render d1 d2")
    case (Inl e)
    then have "compare_documents list_of render d1 d2 = Inl (CompareFailed e)"
      by (rule wrap)
    then show ?thesis
      by (intro disjI2 exI)
  next
    case (Inr r)
    then have "compare_documents list_of render d1 d2 = Inr r"
      by (rule pass)
    then show ?thesis
      by (intro disjI1 exI)
  qed
  have ill: "(\<exists>e. compare_documents list_of render d1 d2 = Inl (CompareFailed e))
        \<longleftrightarrow> \<not> (fields_typed d1 \<and> fields_typed d2 \<and> report_renders list_of d1 d2)"
  proof
    assume failed: "\<exists>e. compare_documents list_of render d1 d2 = Inl (CompareFailed e)"
    show "\<not> (fields_typed d1 \<and> fields_typed d2 \<and> report_renders list_of d1 d2)"
    proof
      assume "fields_typed d1 \<and> fields_typed d2 \<and> report_renders list_of d1 d2"
      then have "fields_typed d1" and "fields_typed d2" and "report_renders list_of d1 d2"
        by simp_all
      then obtain r where "compare_documents list_of render d1 d2 = Inr r"
        by (rule compare_documents_returns [of d1 d2 list_of render])
      with failed show False
        by auto
    qed
  next
    assume "\<not> (fields_typed d1 \<and> fields_typed d2 \<and> report_renders list_of d1 d2)"
    then have "compare_body list_of render d1 d2 \<noteq> Inr r" for r
      using compare_body_Inr_typed [of list_of render d1 d2 r] by auto
    then obtain e where "compare_body list_of render d1 d2 = Inl e"
      by (cases "compare_body list_of render d1 d2") auto
    then have "compare_documents list_of render d1 d2 = Inl (CompareFailed e)"
      by (rule wrap)
    then show "\<exists>e. compare_documents list_of render d1 d2 = Inl (CompareFailed e)" ..
  qed
  have limit: "fields_typed d1 \<and> fields_typed d2 \<and> \<not> report_renders list_of d1 d2
        \<longrightarrow> compare_documents list_of render d1 d2 = Inl (CompareFailed ValueError)"
  proof
    assume "fields_typed d1 \<and> fields_typed d2 \<and> \<not> report_renders list_of d1 d2"
    then have "fields_typed d1" and "fields_typed d2" and "\<not> report_renders list_of d1 d2"
      by simp_all
    then have "compare_body list_of render d1 d2 = Inl ValueError"
      by (rule compare_body_fails)
    then show "compare_documents list_of render d1 d2 = Inl (CompareFailed ValueError)"
      by (rule wrap)
  qed
  from wrap pass have "\<forall>e. compare_body list_of render d1 d2 = Inl e
        \<longrightarrow> compare_documents list_of render d1 d2 = Inl (CompareFailed e)"
    and "\<forall>r. compare_body list_of render d1 d2 = Inr r
        \<longrightarrow> compare_documents list_of render d1 d2 = Inr r"
    by simp_all
  with either ill limit show ?thesis
    by (intro conjI)
qed

theorem C8_failures_witness:
  "compare_documents sorted_list_of_set exact_percent [''content'' \<mapsto> PInt 3] Map.empty
     = Inl (CompareFailed TypeError)
   \<and> compare_documents sorted_list_of_set exact_percent [''content'' \<mapsto> PInt 3] [''content'' \<mapsto> PInt 3]
     = Inl (CompareFailed AttributeError)
   \<and> compare_documents sorted_list_of_set exact_percent
       [''page_count'' \<mapsto> PInt (10 ^ int_max_str_digits)] Map.empty
     = Inl (CompareFailed ValueError)"
proof -
  let ?huge = "[''page_count'' \<mapsto> PInt (10 ^ int_max_str_digits)]"
  have b1: "compare_body sorted_list_of_set exact_percent [''content'' \<mapsto> PInt 3] Map.empty
      = Inl TypeError"
    by (simp add: compare_body_def dict_get_def bind_result_def calculate_text_similarity_def)
  have b2: "compare_body sorted_list_of_set exact_percent [''content'' \<mapsto> PInt 3]
      [''content'' \<mapsto> PInt 3] = Inl AttributeError"
    by (simp add: compare_body_def dict_get_def bind_result_def calculate_text_similarity_def)
  have t1: "fields_typed ?huge" and t2: "fields_typed Map.empty"
    by (simp_all add: fields_typed_def absent_or_def)
  have "pages_of Map.empty - pages_of ?huge = - (10 ^ int_max_str_digits)"
    by (simp add: pages_of_def dict_get_def)
  moreover have "\<not> within_str_limit (- (10 ^ int_max_str_digits))"
    by (simp add: within_str_limit_iff)
  ultimately have b3: "\<not> report_renders sorted_list_of_set ?huge Map.empty"
    by (simp add: report_renders_def)
  note w1 = C8_failures_are_wrapped [of sorted_list_of_set exact_percent
      "[''content'' \<mapsto> PInt 3]" Map.empty, THEN conjunct1, THEN spec, THEN mp, OF b1]
  note w2 = C8_failures_are_wrapped [of sorted_list_of_set exact_percent
      "[''content'' \<mapsto> PInt 3]" "[''content'' \<mapsto> PInt 3]", THEN conjunct1, THEN spec, THEN mp, OF b2]
  note w3 = C8_failures_are_wrapped [of sorted_list_of_set exact_percent ?huge Map.empty,
      THEN conjunct2, THEN conjunct2, THEN conjunct2, THEN conjunct2, THEN mp,
      OF conjI [OF t1 conjI [OF t2 b3]]]
  from w1 w2 w3 show ?thesis
    by (intro conjI)
qed

lemma dict_get_with_defaults:
  "dict_get (with_defaults name d) ''content'' (PStr []) = dict_get d ''content'' (PStr [])"
  "dict_get (with_defaults name d) ''page_count'' (PInt 0) = dict_get d ''page_count'' (PInt 0)"
  "dict_get (with_defaults name d) ''tables'' (PList []) = dict_get d ''tables'' (PList [])"
  "dict_get (with_defaults name d) ''filename'' (PStr name) = dict_get d ''filename'' (PStr name)"
  by (simp_all add: dict_get_def with_defaults_def map_add_def split: option.splits)

lemma compare_body_with_defaults:
  "compare_body list_of render (with_defaults ''Document 1'' d1) (with_defaults ''Document 2'' d2)
     = compare_body list_of render d1 d2"
  unfolding compare_body_def dict_get_with_defaults ..

text \<open>
  C9, as the code has it. When every field the comparator computes with is missing or
  well typed and the summary can write its numbers, \<^verbatim>\<open>compare_documents\<close> returns a report,
  the same report as for the inputs with their missing fields filled in by the defaults
  of the lookups: the empty string for the content, the empty list for the tables, 0 for
  the page count, and the placeholders \<^verbatim>\<open>"Document 1"\<close> and \<^verbatim>\<open>"Document 2"\<close> for the file
  names.
\<close>

theorem C9_missing_fields_default:
  assumes "fields_typed d1" and "fields_typed d2" and "report_renders list_of d1 d2"
  shows "\<exists>r. compare_documents list_of render d1 d2 = Inr r
     \<and> compare_documents list_of render (with_defaults ''Document 1'' d1)
         (with_defaults ''Document 2'' d2) = Inr r
     \<and> (d1 ''filename'' = None \<longrightarrow> filename (document1 r) = PStr ''Document 1'')
     \<and> (d2 ''filename'' = None \<longrightarrow> filename (document2 r) = PStr ''Document 2'')
     \<and> (d1 ''page_count'' = None \<longrightarrow> page_count (document1 r) = PInt 0)
     \<and> (d2 ''page_count'' = None \<longrightarrow> page_count (document2 r) = PInt 0)
     \<and> (d1 ''tables'' = None \<longrightarrow> table_count (document1 r) = 0)
     \<and> (d2 ''tables'' = None \<longrightarrow> table_count (document2 r) = 0)
     \<and> (d1 ''content'' = None \<longrightarrow> content_length (document1 r) = 0)
     \<and> (d2 ''content'' = None \<longrightarrow> content_length (document2 r) = 0)"
proof -
  from assms obtain c1 c2 p1 p2 n1 n2 r where
    c: "dict_get d1 ''content'' (PStr []) = PStr c1" "dict_get d2 ''content'' (PStr []) = PStr c2"
    and p: "dict_get d1 ''page_count'' (PInt 0) = PInt p1" "dict_get d2 ''page_count'' (PInt 0) = PInt p2"
    and n: "py_len (dict_get d1 ''tables'' (PList [])) = Inr n1"
      "py_len (dict_get d2 ''tables'' (PList [])) = Inr n2"
    and r: "compare_documents list_of render d1 d2 = Inr r"
    and doc1: "document1 r = \<lparr> filename = dict_get d1 ''filename'' (PStr ''Document 1''),
               page_count = PInt p1, table_count = n1, content_length = int (length c1) \<rparr>"
    and doc2: "document2 r = \<lparr> filename = dict_get d2 ''filename'' (PStr ''Document 2''),
               page_count = PInt p2, table_count = n2, content_length = int (length c2) \<rparr>"
    by (rule compare_documents_returns [of d1 d2 list_of render]) simp
  have filled: "compare_documents list_of render (with_defaults ''Document 1'' d1)
         (with_defaults ''Document 2'' d2) = Inr r"
    using r by (simp only: compare_documents_def compare_body_with_defaults)
  have f: "d1 ''filename'' = None \<longrightarrow> filename (document1 r) = PStr ''Document 1''"
    "d2 ''filename'' = None \<longrightarrow> filename (document2 r) = PStr ''Document 2''"
    unfolding doc1 doc2 by (simp_all add: dict_get_def)
  have pc: "d1 ''page_count'' = None \<longrightarrow> page_count (document1 r) = PInt 0"
    "d2 ''page_count'' = None \<longrightarrow> page_count (document2 r) = PInt 0"
    unfolding doc1 doc2 using p by (auto simp: dict_get_def)
  have tc: "d1 ''tables'' = None \<longrightarrow> table_count (document1 r) = 0"
    "d2 ''tables'' = None \<longrightarrow> table_count (document2 r) = 0"
    unfolding doc1 doc2 using n by (auto simp: dict_get_def)
  have cl: "d1 ''content'' = None \<longrightarrow> content_length (document1 r) = 0"
    "d2 ''content'' = None \<longrightarrow> content_length (document2 r) = 0"
    unfolding doc1 doc2 using c by (auto simp: dict_get_def)
  show ?thesis
    by (rule exI [of _ r]) (intro conjI r filled f pc tc cl)
qed

theorem C9_missing_fields_witness:
  "\<exists>r. compare_documents sorted_list_of_set exact_percent Map.empty [''content'' \<mapsto> PStr ''Hi.''] = Inr r
     \<and> filename (document1 r) = PStr ''Document 1'' \<and> filename (document2 r) = PStr ''Document 2''
     \<and> page_count (document1 r) = PInt 0 \<and> table_count (document2 r) = 0
     \<and> content_length (document1 r) = 0"
proof -
  let ?d2 = "[''content'' \<mapsto> PStr ''Hi.'']"
  have t1: "fields_typed Map.empty" and t2: "fields_typed ?d2"
    by (simp_all add: fields_typed_def absent_or_def)
  have c1: "dict_get Map.empty ''content'' (PStr []) = PStr []"
    and c2: "dict_get ?d2 ''content'' (PStr []) = PStr ''Hi.''"
    by (simp_all add: dict_get_def)
  have s1: "split_into_sentences (PStr []) = Inr []"
    and s2: "split_into_sentences (PStr ''Hi.'') = Inr [''Hi'']"
    by code_simp+
  have la: "int (length (sorted_list_of_set (set [''Hi''] - set []))) = 1"
    and lr: "int (length (sorted_list_of_set (set [] - set [''Hi'']))) = 0"
    by code_simp+
  have rr: "report_renders sorted_list_of_set Map.empty ?d2"
    unfolding report_renders_def sentences_of_def pages_of_def tables_of_def c1 c2 s1 s2 sum.case la lr
    by (simp add: dict_get_def within_small)
  note filled = C9_missing_fields_default [OF t1 t2 rr, of exact_percent]
  show ?thesis
    by (insert filled, elim exE conjE, intro exI conjI, assumption) simp_all
qed

text \<open>
  C9 as stated fails twice. A missing \<^verbatim>\<open>filename\<close> is not read as the empty string but as
  \<^verbatim>\<open>"Document 1"\<close> or \<^verbatim>\<open>"Document 2"\<close>. And an analysis result with nothing but a page count
  of more than \<open>int_max_str_digits\<close> digits does not succeed: the summary cannot write the
  page delta.
\<close>

theorem C9_filename_counterexample:
  "(\<exists>r. compare_documents sorted_list_of_set exact_percent Map.empty Map.empty = Inr r
      \<and> filename (document1 r) = PStr ''Document 1'' \<and> filename (document1 r) \<noteq> PStr []
      \<and> filename (document2 r) = PStr ''Document 2'' \<and> filename (document2 r) \<noteq> PStr [])
   \<and> compare_documents sorted_list_of_set exact_percent
       [''page_count'' \<mapsto> PInt (10 ^ int_max_str_digits)] Map.empty
     = Inl (CompareFailed ValueError)"
proof -
  have t: "fields_typed Map.empty"
    by (simp add: fields_typed_def absent_or_def)
  have d: "dict_get Map.empty ''filename'' dflt = dflt" for dflt
    by (simp add: dict_get_def)
  have s: "split_into_sentences (PStr []) = Inr []"
    by code_simp
  have rr: "report_renders sorted_list_of_set Map.empty Map.empty"
    unfolding report_renders_def sentences_of_def pages_of_def tables_of_def
    by (simp add: dict_get_def within_zero)
  obtain r where r: "compare_documents sorted_list_of_set exact_percent Map.empty Map.empty = Inr r"
    and f1: "filename (document1 r) = dict_get Map.empty ''filename'' (PStr ''Document 1'')"
    and f2: "filename (document2 r) = dict_get Map.empty ''filename'' (PStr ''Document 2'')"
    by (rule compare_documents_returns [OF t t rr, of exact_percent]) simp
  have names: "filename (document1 r) = PStr ''Document 1''" "filename (document2 r) = PStr ''Document 2''"
    unfolding f1 f2 d by (rule refl)+
  then have differ: "filename (document1 r) \<noteq> PStr []" "filename (document2 r) \<noteq> PStr []"
    by simp_all
  have "\<exists>r. compare_documents sorted_list_of_set exact_percent Map.empty Map.empty = Inr r
      \<and> filename (document1 r) = PStr ''Document 1'' \<and> filename (document1 r) \<noteq> PStr []
      \<and> filename (document2 r) = PStr ''Document 2'' \<and> filename (document2 r) \<noteq> PStr []"
    by (intro exI [of _ r] conjI r names differ)
  then show ?thesis
    using huge_page_count_fails [of sorted_list_of_set exact_percent] by (rule conjI)
qed

end
